theory Spec2Isabelle
  imports Complex_Main
begin

section \<open>Numbers, vectors and errors\<close>

text \<open>
  The simulation computes with Python and numpy floats. They are modelled by the real
  numbers: the statements below are about exact arithmetic, and rounding is outside
  the model, but for the two quotients that decide the number of steps of a run, which
  are rounded as floats are (see the section on the solver). A one-dimensional numpy
  array is a list of reals. Exceptions are values of the type \<open>err\<close>, returned on the
  left of a sum.
\<close>

datatype err = ValueError | IndexError | KeyError | AttributeError
  | FileNotFoundError | ZeroDivisionError

type_synonym vec = "real list"

text \<open>\<^verbatim>\<open>np.dot\<close> of two one-dimensional arrays: a shape mismatch raises ValueError.\<close>

definition dot :: "vec \<Rightarrow> vec \<Rightarrow> err + real" where
  "dot n v = (if length n \<noteq> length v then Inl ValueError
              else Inr (sum_list (map2 (*) n v)))"

text \<open>\<^verbatim>\<open>np.linalg.norm\<close> of a one-dimensional array.\<close>

definition linalg_norm :: "vec \<Rightarrow> real" where
  "linalg_norm v = sqrt (sum_list (map (\<lambda>x. x * x) v))"

section \<open>The cell model (cells.py)\<close>

text \<open>
  The attributes that \<^verbatim>\<open>Cell.__init__\<close> gives to every cell. The two-dimensional
  array \<^verbatim>\<open>points\<close> is the list of its rows, all of one length; the field \<open>oil_value\<close> is
  assigned by the constructors of the subclasses.
\<close>

record cell_attrs =
  point_ids :: "nat list"
  idx :: nat
  midpoint :: vec
  neighbors :: "int list"
  points :: "vec list"
  velocity :: vec
  oil_value :: real

text \<open>
  A cell is a \<^verbatim>\<open>Triangle\<close>, which also has an area and one normal for each edge, or a
  \<^verbatim>\<open>Line\<close>, which has neither attribute. The constructor of the datatype stands for the
  attribute \<^verbatim>\<open>type\<close> ("triangle" or "line").
\<close>

datatype cell =
    is_Triangle: Triangle (attrs: cell_attrs) (area: real) (normals: "vec list")
  | is_Line: Line (attrs: cell_attrs)

fun set_oil_value :: "cell \<Rightarrow> real \<Rightarrow> cell" where
  "set_oil_value (Triangle a ar ns) x = Triangle (a\<lparr>oil_value := x\<rparr>) ar ns"
| "set_oil_value (Line a) x = Line (a\<lparr>oil_value := x\<rparr>)"

text \<open>\<^verbatim>\<open>np.mean(points, axis=0)\<close>: the mean of every column.\<close>

definition mean_axis0 :: "vec list \<Rightarrow> vec" where
  "mean_axis0 pts =
     (case pts of
        [] \<Rightarrow> []
      | p # _ \<Rightarrow> map (\<lambda>j. sum_list (map (\<lambda>q. q ! j) pts) / real (length pts)) [0..<length p])"

text \<open>
  \<^verbatim>\<open>Cell.__init__\<close>. Reading \<^verbatim>\<open>midpoint[1]\<close> raises IndexError when the points have
  fewer than two columns.
\<close>

definition Cell_init :: "nat list \<Rightarrow> nat \<Rightarrow> vec list \<Rightarrow> err + cell_attrs" where
  "Cell_init pids i pts =
     (let mid = mean_axis0 pts in
      if length mid < 2 then Inl IndexError
      else Inr \<lparr>point_ids = pids, idx = i, midpoint = mid,
                neighbors = map (\<lambda>_. - 1) pids, points = pts,
                velocity = [mid ! 1 - 0.2 * mid ! 0, - (mid ! 0), 0],
                oil_value = 0\<rparr>)"

text \<open>
  The body of the loop over the edges in \<^verbatim>\<open>Triangle.__init__\<close>:
  \<^verbatim>\<open>
  v = np.array(p2) - np.array(p1)
  normal = np.array([-v[1], v[0], 0.0])
  if np.dot(normal, p1 - self.midpoint) < 0:
      normal *= -1
  self.normals[i] = normal / np.linalg.norm(normal) * np.linalg.norm(v)
  \<close>
  The dot product raises ValueError unless the points have three columns. For an edge
  of length zero numpy divides zero by zero and stores nan; the reals have no such
  value, and nothing below is stated about the normal of such an edge.
\<close>

definition edge_normal :: "vec \<Rightarrow> vec \<Rightarrow> vec \<Rightarrow> err + vec" where
  "edge_normal mid p1 p2 =
     (let v = map2 (-) p2 p1;
          normal = [- (v ! 1), v ! 0, 0]
      in case dot normal (map2 (-) p1 mid) of
           Inl e \<Rightarrow> Inl e
         | Inr d \<Rightarrow>
             (let normal' = (if d < 0 then map (\<lambda>x. x * (- 1)) normal else normal)
              in Inr (map (\<lambda>x. x / linalg_norm normal' * linalg_norm v) normal')))"

text \<open>The results of a loop whose body may raise: the first error, or all the values.\<close>

fun collect :: "(err + 'a) list \<Rightarrow> err + 'a list" where
  "collect [] = Inr []"
| "collect (r # rs) =
     (case r of
        Inl e \<Rightarrow> Inl e
      | Inr y \<Rightarrow> (case collect rs of Inl e \<Rightarrow> Inl e | Inr ys \<Rightarrow> Inr (y # ys)))"

text \<open>
  \<^verbatim>\<open>Triangle.__init__\<close>: the attributes of a cell, the initial oil value, the two checks
  of the number of points, the area, and the normals.
  \<^verbatim>\<open>
  if len(point_ids) != 3:
      raise ValueError("Triangle cells require three point indices.")
  if points.shape[0] != 3:
      raise ValueError("The points array must be shape (3, 2).")
  self.area = 0.5 * abs(
      (points[0][0] - points[2][0]) * (points[1][1] - points[0][1])
      - (points[0][0] - points[1][0]) * (points[2][1] - points[0][1]))
  \<close>
\<close>

definition Triangle_init :: "nat list \<Rightarrow> nat \<Rightarrow> vec list \<Rightarrow> err + cell" where
  "Triangle_init pids i pts =
     (case Cell_init pids i pts of
        Inl e \<Rightarrow> Inl e
      | Inr a \<Rightarrow>
          (let mid = midpoint a;
               a' = a\<lparr>oil_value :=
                      exp (- ((mid ! 0 - 0.35)\<^sup>2 + (mid ! 1 - 0.45)\<^sup>2) / 0.01)\<rparr>
           in if length pids \<noteq> 3 then Inl ValueError
              else if length pts \<noteq> 3 then Inl ValueError
              else
                (let ar = 0.5 * \<bar>(pts ! 0 ! 0 - pts ! 2 ! 0) * (pts ! 1 ! 1 - pts ! 0 ! 1)
                               - (pts ! 0 ! 0 - pts ! 1 ! 0) * (pts ! 2 ! 1 - pts ! 0 ! 1)\<bar>
                 in case collect (map (\<lambda>(p1, p2). edge_normal mid p1 p2)
                                      (zip pts (tl pts @ [hd pts]))) of
                      Inl e \<Rightarrow> Inl e
                    | Inr ns \<Rightarrow> Inr (Triangle a' ar ns))))"

text \<open>\<^verbatim>\<open>Line.__init__\<close>: the attributes of a cell, and the oil value 0.\<close>

definition Line_init :: "nat list \<Rightarrow> nat \<Rightarrow> vec list \<Rightarrow> err + cell" where
  "Line_init pids i pts =
     (case Cell_init pids i pts of
        Inl e \<Rightarrow> Inl e
      | Inr a \<Rightarrow> Inr (Line (a\<lparr>oil_value := 0\<rparr>)))"

text \<open>
  \<^verbatim>\<open>CellFactory.__call__\<close> with the two classes that \<^verbatim>\<open>Mesh.__init__\<close> registers: a key
  that is not registered raises KeyError.
\<close>

definition factory :: "string \<Rightarrow> nat list \<Rightarrow> nat \<Rightarrow> vec list \<Rightarrow> err + cell" where
  "factory key pids i pts =
     (if key = ''triangle'' then Triangle_init pids i pts
      else if key = ''line'' then Line_init pids i pts
      else Inl KeyError)"

subsection \<open>Neighbours (Triangle.compute\_neighbors)\<close>

text \<open>
  The inner loop: the index of the first pair of consecutive points of this triangle
  that are both points of the other cell.
\<close>

fun first_edge :: "(nat \<times> nat) list \<Rightarrow> nat list \<Rightarrow> nat \<Rightarrow> nat option" where
  "first_edge [] other i = None"
| "first_edge ((p, pplus) # es) other i =
     (if p \<in> set other \<and> pplus \<in> set other then Some i else first_edge es other (Suc i))"

text \<open>
  The test of one cell of the list: it has exactly two points in common with this
  triangle, and then the inner loop runs.
\<close>

definition shared_edge :: "nat list \<Rightarrow> nat list \<Rightarrow> nat option" where
  "shared_edge pts other =
     (if card (set pts \<inter> set other) = 2
      then first_edge (zip pts (tl pts @ [hd pts])) other 0
      else None)"

text \<open>
  The outer loop over \<^verbatim>\<open>enumerate(cells)\<close>: every cell that passes the test is written
  into the entry of its edge, whatever that entry held.
\<close>

fun neighbors_loop :: "nat list \<Rightarrow> (nat \<times> cell) list \<Rightarrow> int list \<Rightarrow> int list" where
  "neighbors_loop pts [] nb = nb"
| "neighbors_loop pts ((k, c) # rest) nb =
     neighbors_loop pts rest
       (case shared_edge pts (point_ids (attrs c)) of
          None \<Rightarrow> nb
        | Some i \<Rightarrow> nb[i := int k])"

text \<open>\<^verbatim>\<open>compute_neighbors\<close>: the loop for a Triangle, nothing for a Line.\<close>

fun compute_neighbors :: "cell \<Rightarrow> cell list \<Rightarrow> cell" where
  "compute_neighbors (Triangle a ar ns) cells =
     Triangle (a\<lparr>neighbors := neighbors_loop (point_ids a) (enumerate 0 cells) (neighbors a)\<rparr>) ar ns"
| "compute_neighbors (Line a) cells = Line a"

section \<open>The mesh (mesh.py)\<close>

text \<open>
  \<^verbatim>\<open>Mesh.__init__\<close> after the file is read: \<open>P\<close> is the table of points, and every block
  of cells is a type and the rows of point indices. The inner loop creates the cells
  of one block; \<^verbatim>\<open>points[cell_idx, :]\<close> raises IndexError for an index outside the table.
\<close>

fun add_cells :: "vec list \<Rightarrow> string \<Rightarrow> nat list list \<Rightarrow> cell list \<Rightarrow> err + cell list" where
  "add_cells P ty [] acc = Inr acc"
| "add_cells P ty (ci # rest) acc =
     (if \<not> list_all (\<lambda>j. j < length P) ci then Inl IndexError
      else case factory ty ci (length acc) (map ((!) P) ci) of
             Inl e \<Rightarrow> Inl e
           | Inr c \<Rightarrow> add_cells P ty rest (acc @ [c]))"

fun add_blocks :: "vec list \<Rightarrow> (string \<times> nat list list) list \<Rightarrow> cell list \<Rightarrow> err + cell list" where
  "add_blocks P [] acc = Inr acc"
| "add_blocks P ((ty, rows) # blocks) acc =
     (if ty = ''vertex'' then add_blocks P blocks acc
      else case add_cells P ty rows acc of
             Inl e \<Rightarrow> Inl e
           | Inr acc' \<Rightarrow> add_blocks P blocks acc')"

definition Mesh_init :: "vec list \<Rightarrow> (string \<times> nat list list) list \<Rightarrow> err + cell list" where
  "Mesh_init P blocks = add_blocks P blocks []"

text \<open>
  \<^verbatim>\<open>Mesh.find_neighbors\<close>: every cell in turn computes its neighbours against the list
  of all cells, and is updated in place.
\<close>

definition find_neighbors :: "cell list \<Rightarrow> cell list" where
  "find_neighbors cells =
     fold (\<lambda>i cs. cs[i := compute_neighbors (cs ! i) cs]) [0..<length cells] cells"

text \<open>
  \<^verbatim>\<open>
  [cell for cell in self._cells
   if cell.type == "triangle" and
   x_min <= cell.midpoint[0] <= x_max and
   y_min <= cell.midpoint[1] <= y_max]
  \<close>
\<close>

definition fishing_cells :: "cell list \<Rightarrow> real \<Rightarrow> real \<Rightarrow> real \<Rightarrow> real \<Rightarrow> cell list" where
  "fishing_cells cells x_min x_max y_min y_max =
     filter (\<lambda>c. is_Triangle c
                \<and> x_min \<le> midpoint (attrs c) ! 0 \<and> midpoint (attrs c) ! 0 \<le> x_max
                \<and> y_min \<le> midpoint (attrs c) ! 1 \<and> midpoint (attrs c) ! 1 \<le> y_max) cells"

section \<open>The upwind flux (solver.py, Solver.flux\_function)\<close>

text \<open>
  \<^verbatim>\<open>
  angle = np.dot(n, v)
  return a * angle if angle > 0 else b * angle
  \<close>
\<close>

definition flux_function :: "real \<Rightarrow> real \<Rightarrow> vec \<Rightarrow> vec \<Rightarrow> err + real" where
  "flux_function a b n v =
     (case dot n v of
        Inl e \<Rightarrow> Inl e
      | Inr angle \<Rightarrow> Inr (if angle > 0 then a * angle else b * angle))"

section \<open>The time step (solver.py, Solver.calculate)\<close>

text \<open>\<^verbatim>\<open>0.5 * (cell.velocity + self._mesh.cells()[ngh].velocity)\<close>\<close>

definition avg_velocity :: "vec \<Rightarrow> vec \<Rightarrow> vec" where
  "avg_velocity v w = map (\<lambda>x. 0.5 * x) (map2 (+) v w)"

text \<open>
  The inner loop of \<^verbatim>\<open>calculate\<close> over \<^verbatim>\<open>enumerate(cell.neighbors)\<close>, with the
  accumulator \<^verbatim>\<open>up\<close>; \<open>u\<close> is the list of the values read before the loops.
  \<^verbatim>\<open>
  if ngh < 0:
      continue
  normal = cell.normals[i]
  area = cell.area
  velocity = 0.5 * (cell.velocity + self._mesh.cells()[ngh].velocity)
  up -= (self.dt / area) * self.flux_function(u[cell_idx], u[ngh], normal, velocity)
  \<close>
  A Line has no attribute \<^verbatim>\<open>normals\<close>, and an index outside a list raises IndexError.
  For an area of zero numpy divides without raising and yields inf or nan, which the
  reals do not have.
\<close>

fun flux_loop ::
  "real \<Rightarrow> cell list \<Rightarrow> real list \<Rightarrow> nat \<Rightarrow> cell \<Rightarrow> (nat \<times> int) list \<Rightarrow> real \<Rightarrow> err + real" where
  "flux_loop dt cells u cell_idx cell [] up = Inr up"
| "flux_loop dt cells u cell_idx cell ((i, ngh) # rest) up =
     (if ngh < 0 then flux_loop dt cells u cell_idx cell rest up
      else case cell of
             Line a \<Rightarrow> Inl AttributeError
           | Triangle a ar ns \<Rightarrow>
               if length ns \<le> i \<or> length cells \<le> nat ngh then Inl IndexError
               else (case flux_function (u ! cell_idx) (u ! nat ngh) (ns ! i)
                            (avg_velocity (velocity a) (velocity (attrs (cells ! nat ngh)))) of
                       Inl e \<Rightarrow> Inl e
                     | Inr f \<Rightarrow> flux_loop dt cells u cell_idx cell rest (up - dt / ar * f)))"

text \<open>
  \<^verbatim>\<open>
  u = [cell.oil_value for cell in self._mesh.cells()]
  u_new = np.zeros_like(u)
  for cell_idx, cell in enumerate(self._mesh.cells()):
      up = 0
      for i, ngh in enumerate(cell.neighbors): ...
      u_new[cell_idx] = u[cell_idx] + up
  for cell_idx, cell in enumerate(self._mesh.cells()):
      cell.oil_value = u_new[cell_idx]
  \<close>
  An error of the first loop is raised before any cell is written.
\<close>

definition calculate_cells :: "real \<Rightarrow> cell list \<Rightarrow> err + cell list" where
  "calculate_cells dt cells =
     (let u = map (\<lambda>cell. oil_value (attrs cell)) cells in
      case collect
             (map (\<lambda>(cell_idx, cell).
                     case flux_loop dt cells u cell_idx cell
                            (enumerate 0 (neighbors (attrs cell))) 0 of
                       Inl e \<Rightarrow> Inl e
                     | Inr up \<Rightarrow> Inr (u ! cell_idx + up))
                  (enumerate 0 cells)) of
        Inl e \<Rightarrow> Inl e
      | Inr u_new \<Rightarrow> Inr (map2 set_oil_value cells u_new))"

subsection \<open>The update rule in the words of the specification\<close>

text \<open>The flux of the specification, for vectors of one length.\<close>

definition upwind :: "real \<Rightarrow> real \<Rightarrow> vec \<Rightarrow> vec \<Rightarrow> real" where
  "upwind a b n v =
     (let angle = sum_list (map2 (*) n v) in if angle > 0 then a * angle else b * angle)"

text \<open>
  Half the sum of two velocities, component by component; a velocity has three
  components.
\<close>

definition mean_velocity :: "vec \<Rightarrow> vec \<Rightarrow> vec" where
  "mean_velocity v w = [0.5 * (v ! 0 + w ! 0), 0.5 * (v ! 1 + w ! 1), 0.5 * (v ! 2 + w ! 2)]"

text \<open>
  The flux across edge \<open>e\<close> of cell \<open>i\<close>: the flux of the values of the cell and of its
  neighbour across the normal of the edge, with half the sum of the two velocities.
\<close>

definition edge_flux :: "cell list \<Rightarrow> nat \<Rightarrow> nat \<Rightarrow> real" where
  "edge_flux cells i e =
     (let c = cells ! i; d = cells ! nat (neighbors (attrs c) ! e)
      in upwind (oil_value (attrs c)) (oil_value (attrs d)) (normals c ! e)
           (mean_velocity (velocity (attrs c)) (velocity (attrs d))))"

text \<open>The term of edge \<open>e\<close> of cell \<open>i\<close>: the step divided by the area, times the flux.\<close>

definition edge_term :: "real \<Rightarrow> cell list \<Rightarrow> nat \<Rightarrow> nat \<Rightarrow> real" where
  "edge_term dt cells i e = dt / area (cells ! i) * edge_flux cells i e"

text \<open>The edges of cell \<open>i\<close> that have a neighbour.\<close>

definition interior_edges :: "cell list \<Rightarrow> nat \<Rightarrow> nat list" where
  "interior_edges cells i =
     filter (\<lambda>e. 0 \<le> neighbors (attrs (cells ! i)) ! e)
       [0..<length (neighbors (attrs (cells ! i)))]"

definition jacobi_value :: "real \<Rightarrow> cell list \<Rightarrow> nat \<Rightarrow> real" where
  "jacobi_value dt cells i =
     oil_value (attrs (cells ! i))
       - sum_list (map (edge_term dt cells i) (interior_edges cells i))"

text \<open>
  What the constructors and \<^verbatim>\<open>find_neighbors\<close> establish for every cell of a mesh, and
  the time step relies on: velocities have three components; a Triangle has one normal
  of three components for each entry of \<open>neighbors\<close>, and its neighbours are cells of
  the mesh; every entry of \<open>neighbors\<close> of a Line is negative.
\<close>

fun cell_ok :: "nat \<Rightarrow> cell \<Rightarrow> bool" where
  "cell_ok n (Triangle a ar ns) =
     (length (velocity a) = 3 \<and> length ns = length (neighbors a)
      \<and> list_all (\<lambda>nm. length nm = 3) ns
      \<and> list_all (\<lambda>ngh. ngh < int n) (neighbors a))"
| "cell_ok n (Line a) =
     (length (velocity a) = 3 \<and> list_all (\<lambda>ngh. ngh < 0) (neighbors a))"

definition mesh_ok :: "cell list \<Rightarrow> bool" where
  "mesh_ok cells = list_all (cell_ok (length cells)) cells"

text \<open>
  The time step divides by the area of a Triangle. Where the area is zero the floats
  give inf or nan and the reals give 0, so the update rule is stated for areas other
  than zero.
\<close>

fun nonzero_area :: "cell \<Rightarrow> bool" where
  "nonzero_area (Triangle a ar ns) = (ar \<noteq> 0)"
| "nonzero_area (Line a) = True"

subsection \<open>The neighbour of an edge in the words of the specification\<close>

text \<open>
  A cell with the point indices \<open>other\<close> matches edge \<open>i\<close> of the triangle with the point
  indices \<open>pts\<close>: the two sets of indices have exactly two elements in common, and both
  ends of the edge, \<open>pts ! i\<close> and \<open>pts ! ((i + 1) mod 3)\<close>, are among \<open>other\<close>.
\<close>

definition edge_match :: "nat list \<Rightarrow> nat \<Rightarrow> nat list \<Rightarrow> bool" where
  "edge_match pts i other =
     (card (set pts \<inter> set other) = 2 \<and> pts ! i \<in> set other \<and> pts ! ((i + 1) mod 3) \<in> set other)"

text \<open>The index of the first matching cell in the order of creation, or -1.\<close>

definition neighbor_first :: "nat list \<Rightarrow> nat \<Rightarrow> cell list \<Rightarrow> int" where
  "neighbor_first pts i cells =
     (case find (\<lambda>(k, c). edge_match pts i (point_ids (attrs c))) (enumerate 0 cells) of
        None \<Rightarrow> - 1
      | Some (k, c) \<Rightarrow> int k)"

text \<open>The index of the last matching cell in the order of creation, or -1.\<close>

definition neighbor_last :: "nat list \<Rightarrow> nat \<Rightarrow> cell list \<Rightarrow> int" where
  "neighbor_last pts i cells =
     (case find (\<lambda>(k, c). edge_match pts i (point_ids (attrs c))) (rev (enumerate 0 cells)) of
        None \<Rightarrow> - 1
      | Some (k, c) \<Rightarrow> int k)"

section \<open>The solver state and the restart files (solver.py)\<close>

text \<open>
  The attributes of a \<^verbatim>\<open>Solver\<close> that the time loop and the restart read or write. The
  field \<open>mesh\<close> is the list of cells of \<^verbatim>\<open>self._mesh\<close>; the borders of the fishing area
  are the pairs \<open>(x_min, x_max)\<close> and \<open>(y_min, y_max)\<close>.
\<close>

record solver =
  mesh :: "cell list"
  meshName :: string
  tStart :: real
  tEnd :: real
  nt :: int
  dt :: real
  fishing_borders :: "(real \<times> real) \<times> (real \<times> real)"

text \<open>\<^verbatim>\<open>Solver.calculate\<close>: the time step on the cells of the mesh, with \<^verbatim>\<open>self.dt\<close>.\<close>

definition calculate :: "solver \<Rightarrow> err + solver" where
  "calculate s =
     (case calculate_cells (dt s) (mesh s) of
        Inl e \<Rightarrow> Inl e
      | Inr cells' \<Rightarrow> Inr (s\<lparr>mesh := cells'\<rparr>))"

subsection \<open>Text files\<close>

text \<open>
  A piece of text of a restart file, by what Python reads in it: the text of a float
  (\<^verbatim>\<open>float\<close> parses it, \<^verbatim>\<open>int\<close> does not), the text of an integer (both parse it), the
  text of a list of lists of numbers, or any other text (neither parses it). Writing a
  float with an f-string and reading it with \<^verbatim>\<open>float\<close> gives the float back, so a number
  stands for its text.
\<close>

datatype field = Txt string | FloatLit real | IntLit int | ListLit "real list list"

fun py_float :: "field \<Rightarrow> err + real" where
  "py_float (FloatLit x) = Inr x"
| "py_float (IntLit n) = Inr (of_int n)"
| "py_float (Txt t) = Inl ValueError"
| "py_float (ListLit l) = Inl ValueError"

fun py_int :: "field \<Rightarrow> err + int" where
  "py_int (IntLit n) = Inr n"
| "py_int (FloatLit x) = Inl ValueError"
| "py_int (Txt t) = Inl ValueError"
| "py_int (ListLit l) = Inl ValueError"

text \<open>\<^verbatim>\<open>int(x)\<close> of a float: the integer part, rounded towards zero.\<close>

definition py_trunc :: "real \<Rightarrow> int" where
  "py_trunc x = (if 0 \<le> x then \<lfloor>x\<rfloor> else \<lceil>x\<rceil>)"

subsection \<open>Float subtraction and division\<close>

text \<open>
  The integer part of a quotient depends on how the quotient is rounded, so the step
  \<^verbatim>\<open>dt\<close> and the number of steps of a restart are computed as Python computes them: a
  float is a double of IEEE 754, and a difference or a quotient is the exact result
  rounded to the nearest double, a tie going to the even mantissa. A result too large
  for a double is outside the model.

  Rounding to the nearest integer, a tie going to the even one.
\<close>

definition round_half_even :: "real \<Rightarrow> int" where
  "round_half_even x =
     (let n = \<lfloor>x\<rfloor>; d = x - of_int n
      in if d < 1 / 2 then n else if 1 / 2 < d then n + 1 else if even n then n else n + 1)"

text \<open>
  The mantissa \<open>y\<close> and the unit \<open>u\<close> of a positive number \<open>y * u\<close>: the number is doubled
  or halved, and the unit halved or doubled, until the mantissa has 53 bits or the unit
  is the least one, that of the subnormal doubles. The first argument bounds the number
  of steps; 2200 is enough for every number in the range of the doubles.
\<close>

fun scale_mantissa :: "nat \<Rightarrow> real \<Rightarrow> real \<Rightarrow> real \<times> real" where
  "scale_mantissa fuel y u =
     (if fuel = 0 then (y, u)
      else if y < 2 ^ 52 \<and> 1 / 2 ^ 1074 < u then scale_mantissa (fuel - 1) (2 * y) (u / 2)
      else if 2 ^ 53 \<le> y then scale_mantissa (fuel - 1) (y / 2) (2 * u)
      else (y, u))"

declare scale_mantissa.simps [simp del]

text \<open>The double nearest to a real number.\<close>

definition float_round :: "real \<Rightarrow> real" where
  "float_round x =
     (if x = 0 then 0
      else case scale_mantissa 2200 \<bar>x\<bar> 1 of
             (y, u) \<Rightarrow> sgn x * of_int (round_half_even y) * u)"

text \<open>The difference and the quotient of two floats.\<close>

definition float_sub :: "real \<Rightarrow> real \<Rightarrow> real" where
  "float_sub x y = float_round (x - y)"

definition float_div :: "real \<Rightarrow> real \<Rightarrow> real" where
  "float_div x y = float_round (x / y)"

text \<open>\<^verbatim>\<open>t.split(":")\<close>: the pieces of a text between its colons.\<close>

fun split_colon :: "string \<Rightarrow> string list" where
  "split_colon [] = [[]]"
| "split_colon (c # cs) =
     (if c = CHR '':'' then [] # split_colon cs
      else (case split_colon cs of [] \<Rightarrow> [[c]] | w # ws \<Rightarrow> (c # w) # ws))"

text \<open>
  The folder of a restart. Each file is absent or a list of lines. A line of
  \<^verbatim>\<open>oil_values.txt\<close> is one piece of text. A line of \<^verbatim>\<open>simulation_data.txt\<close> is the text
  before its first colon, the key, and the pieces between and after its colons, so that
  \<^verbatim>\<open>line.strip().split(":")\<close> has one element more than the second component.
\<close>

record folder =
  oil_values_txt :: "field list option"
  simulation_data_txt :: "(string \<times> field list) list option"

subsection \<open>Saving (Solver.save\_state)\<close>

text \<open>
  \<^verbatim>\<open>
  for cell in self._mesh.cells():
      f.write(f"{cell.oil_value}\n")
  \<close>
\<close>

definition oil_values_lines :: "cell list \<Rightarrow> field list" where
  "oil_values_lines cells = map (\<lambda>cell. FloatLit (oil_value (attrs cell))) cells"

text \<open>The sum of the values of the cells of the fishing area.\<close>

definition fishing_oil :: "solver \<Rightarrow> real" where
  "fishing_oil s =
     (case fishing_borders s of
        ((x_min, x_max), (y_min, y_max)) \<Rightarrow>
          sum_list (map (\<lambda>cell. oil_value (attrs cell))
                        (fishing_cells (mesh s) x_min x_max y_min y_max)))"

text \<open>
  The lines of \<^verbatim>\<open>simulation_data.txt\<close>. \<^verbatim>\<open>max\<close> and \<^verbatim>\<open>min\<close> of no values raise
  ValueError. The name of the mesh is written as it is, so its colons cut the line.
\<close>

definition simulation_data_lines :: "solver \<Rightarrow> err + (string \<times> field list) list" where
  "simulation_data_lines s =
     (case map (\<lambda>cell. oil_value (attrs cell)) (mesh s) of
        [] \<Rightarrow> Inl ValueError
      | v # vs \<Rightarrow>
          Inr [(''tStart'', [FloatLit (tStart s)]),
               (''tEnd'', [FloatLit (tEnd s)]),
               (''meshName'', map Txt (split_colon (meshName s))),
               (''max_oil'', [FloatLit (fold max vs v)]),
               (''min_oil'', [FloatLit (fold min vs v)]),
               (''total_oil'', [FloatLit (sum_list (v # vs))]),
               (''fishing_grounds_oil'', [FloatLit (fishing_oil s)]),
               (''fishing_borders'',
                  [ListLit (case fishing_borders s of
                              ((x_min, x_max), (y_min, y_max)) \<Rightarrow> [[x_min, x_max], [y_min, y_max]])])])"

text \<open>
  \<^verbatim>\<open>save_state\<close>: the folder after the call, and the error if one is raised. Both files
  are opened for writing before the maximum is computed, so after the error the second
  file is empty.
\<close>

definition save_state :: "solver \<Rightarrow> folder \<times> err option" where
  "save_state s =
     (case simulation_data_lines s of
        Inl e \<Rightarrow>
          (\<lparr>oil_values_txt = Some (oil_values_lines (mesh s)), simulation_data_txt = Some []\<rparr>,
           Some e)
      | Inr ls \<Rightarrow>
          (\<lparr>oil_values_txt = Some (oil_values_lines (mesh s)), simulation_data_txt = Some ls\<rparr>,
           None))"

subsection \<open>Loading (Solver.load\_state)\<close>

text \<open>\<^verbatim>\<open>[float(line.strip()) for line in f.readlines()]\<close>\<close>

definition read_oil_values :: "field list \<Rightarrow> err + real list" where
  "read_oil_values ls = collect (map py_float ls)"

text \<open>
  \<^verbatim>\<open>
  for cell, value in zip(self._mesh.cells(), oil_values):
      cell.oil_value = value
  \<close>
  The loop ends with the shorter of the two lists.
\<close>

fun assign_values :: "cell list \<Rightarrow> real list \<Rightarrow> cell list" where
  "assign_values (c # cs) (v # vs) = set_oil_value c v # assign_values cs vs"
| "assign_values cs [] = cs"
| "assign_values [] vs = []"

text \<open>
  The loop over the lines of \<^verbatim>\<open>simulation_data.txt\<close>: the state when the loop ends or
  raises, and the error.
  \<^verbatim>\<open>
  key, value = line.strip().split(":")
  if key == "current_time":
      self._tStart = float(value)
  elif key == "remaining_steps":
      remaining_steps = int(value)
  \<close>
  Unpacking raises ValueError unless the line has exactly one colon.
\<close>

fun read_simulation_data :: "solver \<Rightarrow> (string \<times> field list) list \<Rightarrow> solver \<times> err option" where
  "read_simulation_data s [] = (s, None)"
| "read_simulation_data s ((key, vals) # ls) =
     (case vals of
        [val] \<Rightarrow>
          if key = ''current_time'' then
            (case py_float val of
               Inl e \<Rightarrow> (s, Some e)
             | Inr x \<Rightarrow> read_simulation_data (s\<lparr>tStart := x\<rparr>) ls)
          else if key = ''remaining_steps'' then
            (case py_int val of
               Inl e \<Rightarrow> (s, Some e)
             | Inr n \<Rightarrow> read_simulation_data s ls)
          else read_simulation_data s ls
      | _ \<Rightarrow> (s, Some ValueError))"

text \<open>
  \<^verbatim>\<open>load_state\<close>: the solver after the call, and the error if one is raised. The two
  files are looked for first; the values are all read before any cell is written; the
  number of steps is computed last, with the difference and the quotient of floats, and
  dividing by a \<^verbatim>\<open>dt\<close> of zero raises.
  \<^verbatim>\<open>
  self._nt = int((self._tEnd - self._tStart) / self.dt)
  \<close>
\<close>

definition load_state :: "solver \<Rightarrow> folder \<Rightarrow> solver \<times> err option" where
  "load_state s f =
     (case (oil_values_txt f, simulation_data_txt f) of
        (Some ol, Some ml) \<Rightarrow>
          (case read_oil_values ol of
             Inl e \<Rightarrow> (s, Some e)
           | Inr oil_values \<Rightarrow>
               (case read_simulation_data (s\<lparr>mesh := assign_values (mesh s) oil_values\<rparr>) ml of
                  (s', Some e) \<Rightarrow> (s', Some e)
                | (s', None) \<Rightarrow>
                    if dt s' = 0 then (s', Some ZeroDivisionError)
                    else (s'\<lparr>nt := py_trunc (float_div (float_sub (tEnd s') (tStart s'))
                                                 (dt s'))\<rparr>, None)))
      | _ \<Rightarrow> (s, Some FileNotFoundError))"

subsection \<open>Construction and the time loop\<close>

text \<open>
  The configuration that \<^verbatim>\<open>Solver.__init__\<close> reads, already validated, and what the
  file system holds at the path \<open>restartFile\<close>, if one is configured. The two times are
  floats.
\<close>

record config =
  cfg_meshName :: string
  cfg_tStart :: real
  cfg_tEnd :: real
  cfg_nSteps :: int
  cfg_borders :: "(real \<times> real) \<times> (real \<times> real)"
  cfg_restartFile :: "folder option"

text \<open>
  \<^verbatim>\<open>Solver.__init__\<close>, with the points and the blocks of cells that reading the file of
  the mesh yields: the mesh and its neighbours, the step
  \<^verbatim>\<open>self.dt = (self._tEnd - self._tStart) / float(self._nt)\<close>, and the restart.
\<close>

definition Solver_init ::
  "config \<Rightarrow> vec list \<Rightarrow> (string \<times> nat list list) list \<Rightarrow> err + solver" where
  "Solver_init cfg P blocks =
     (case Mesh_init P blocks of
        Inl e \<Rightarrow> Inl e
      | Inr cells \<Rightarrow>
          if cfg_nSteps cfg = 0 then Inl ZeroDivisionError
          else
            (let s = \<lparr>mesh = find_neighbors cells, meshName = cfg_meshName cfg,
                       tStart = cfg_tStart cfg, tEnd = cfg_tEnd cfg, nt = cfg_nSteps cfg,
                       dt = float_div (float_sub (cfg_tEnd cfg) (cfg_tStart cfg))
                              (float_round (of_int (cfg_nSteps cfg))),
                       fishing_borders = cfg_borders cfg\<rparr>
             in case cfg_restartFile cfg of
                  None \<Rightarrow> Inr s
                | Some f \<Rightarrow>
                    (case load_state s f of
                       (s', Some e) \<Rightarrow> Inl e
                     | (s', None) \<Rightarrow> Inr s')))"

text \<open>
  The loop of \<^verbatim>\<open>run_simulation\<close> over \<^verbatim>\<open>range(1, self._nt + 1)\<close>, without the images:
  \<^verbatim>\<open>
  self.calculate()
  current_time = self._tStart + step * self.dt
  fishing_oil = sum(cell.oil_value for cell in fishing_cells)
  fishing_oil_data.append((current_time, fishing_oil))
  \<close>
  The cells of the fishing area are chosen once, by type and midpoint, which no step
  changes; their values are read after every step.
\<close>

fun time_loop :: "solver \<Rightarrow> int list \<Rightarrow> (real \<times> real) list \<Rightarrow> err + solver \<times> (real \<times> real) list" where
  "time_loop s [] fishing_oil_data = Inr (s, fishing_oil_data)"
| "time_loop s (step # steps) fishing_oil_data =
     (case calculate s of
        Inl e \<Rightarrow> Inl e
      | Inr s' \<Rightarrow>
          time_loop s' steps
            (fishing_oil_data @ [(tStart s' + of_int step * dt s', fishing_oil s')]))"

text \<open>
  \<^verbatim>\<open>run_simulation\<close>: the pairs of time and oil in the fishing area, the solver after
  the last step, and the folder that \<^verbatim>\<open>save_state\<close> writes at the end.
\<close>

definition run_simulation :: "solver \<Rightarrow> err + (real \<times> real) list \<times> solver \<times> folder" where
  "run_simulation s =
     (case time_loop s [1..nt s] [(tStart s, fishing_oil s)] of
        Inl e \<Rightarrow> Inl e
      | Inr (s', fishing_oil_data) \<Rightarrow>
          (case save_state s' of
             (f, Some e) \<Rightarrow> Inl e
           | (f, None) \<Rightarrow> Inr (fishing_oil_data, s', f)))"

subsection \<open>Totals and matched edges\<close>

text \<open>The sum of the values of all cells.\<close>

definition total_oil :: "cell list \<Rightarrow> real" where
  "total_oil cells = sum_list (map (\<lambda>c. oil_value (attrs c)) cells)"

text \<open>
  The quantity of oil in a cell, its area times its value (a Line has no area and holds
  none), and the quantity in the mesh.
\<close>

fun mass :: "cell \<Rightarrow> real" where
  "mass (Triangle a ar ns) = ar * oil_value a"
| "mass (Line a) = 0"

definition total_mass :: "cell list \<Rightarrow> real" where
  "total_mass cells = sum_list (map mass cells)"

text \<open>
  Edge \<open>e\<close> of cell \<open>i\<close> is matched: the cell is a Triangle, the neighbour across the edge
  is a Triangle that has cell \<open>i\<close> as its neighbour across an edge with the opposite
  normal, and neither of the two has one cell as its neighbour across two edges.
\<close>

definition edge_matched :: "cell list \<Rightarrow> nat \<Rightarrow> nat \<Rightarrow> bool" where
  "edge_matched cells i e =
     (case cells ! i of
        Line a \<Rightarrow> False
      | Triangle a ar ns \<Rightarrow>
          (case cells ! nat (neighbors a ! e) of
             Line b \<Rightarrow> False
           | Triangle b br ms \<Rightarrow>
               distinct (filter (\<lambda>ngh. 0 \<le> ngh) (neighbors a))
               \<and> distinct (filter (\<lambda>ngh. 0 \<le> ngh) (neighbors b))
               \<and> list_ex (\<lambda>e'. neighbors b ! e' = int i \<and> ms ! e' = map uminus (ns ! e))
                     [0..<length (neighbors b)]))"

text \<open>
  The sum of the fluxes across the edges that have a neighbour and are not matched,
  for instance the edges to a Line, and whether every edge with a neighbour is matched.
\<close>

definition unmatched_flux :: "cell list \<Rightarrow> real" where
  "unmatched_flux cells =
     (\<Sum>i\<leftarrow>[0..<length cells].
        \<Sum>e\<leftarrow>filter (\<lambda>e. \<not> edge_matched cells i e) (interior_edges cells i).
          edge_flux cells i e)"

definition all_matched :: "cell list \<Rightarrow> bool" where
  "all_matched cells =
     list_all (\<lambda>i. list_all (edge_matched cells i) (interior_edges cells i)) [0..<length cells]"

text \<open>Every Triangle has the area \<open>A\<close>.\<close>

fun has_area :: "real \<Rightarrow> cell \<Rightarrow> bool" where
  "has_area A (Triangle a ar ns) = (ar = A)"
| "has_area A (Line a) = True"

section \<open>A small mesh\<close>

text \<open>
  The unit square cut along a diagonal into two triangles, with a Line on the diagonal
  and a block of vertices that the mesh skips: the table of points, the blocks of
  cells, and the cells that \<^verbatim>\<open>Mesh.__init__\<close> and \<^verbatim>\<open>find_neighbors\<close> make of them.
\<close>

definition square_points :: "vec list" where
  "square_points = [[0, 0, 0], [1, 0, 0], [1, 1, 0], [0, 1, 0]]"

definition square_blocks :: "(string \<times> nat list list) list" where
  "square_blocks =
     [(''vertex'', [[0]]), (''line'', [[0, 2]]), (''triangle'', [[0, 1, 2], [0, 2, 3]])]"

definition square_mesh :: "cell list" where
  "square_mesh =
     [Line \<lparr>point_ids = [0, 2], idx = 0, midpoint = [1 / 2, 1 / 2, 0],
             neighbors = [- 1, - 1], points = [[0, 0, 0], [1, 1, 0]],
             velocity = [2 / 5, - (1 / 2), 0], oil_value = 0\<rparr>,
      Triangle \<lparr>point_ids = [0, 1, 2], idx = 1, midpoint = [2 / 3, 1 / 3, 0],
                 neighbors = [- 1, - 1, 2], points = [[0, 0, 0], [1, 0, 0], [1, 1, 0]],
                 velocity = [1 / 5, - (2 / 3), 0],
                 oil_value = exp (- ((2 / 3 - 0.35)\<^sup>2 + (1 / 3 - 0.45)\<^sup>2) / 0.01)\<rparr>
               (1 / 2) [[0, - 1, 0], [1, 0, 0], [- 1, 1, 0]],
      Triangle \<lparr>point_ids = [0, 2, 3], idx = 2, midpoint = [1 / 3, 2 / 3, 0],
                 neighbors = [1, - 1, - 1], points = [[0, 0, 0], [1, 1, 0], [0, 1, 0]],
                 velocity = [3 / 5, - (1 / 3), 0],
                 oil_value = exp (- ((1 / 3 - 0.35)\<^sup>2 + (2 / 3 - 0.45)\<^sup>2) / 0.01)\<rparr>
               (1 / 2) [[1, - 1, 0], [0, 1, 0], [- 1, 0, 0]]]"

text \<open>
  A solver on the small mesh, for two steps from time 0 to time 1, and a restart folder
  whose file of values has a single line.
\<close>

definition square_solver :: solver where
  "square_solver =
     \<lparr>mesh = square_mesh, meshName = ''square.msh'', tStart = 0, tEnd = 1, nt = 2,
      dt = 1 / 2, fishing_borders = ((0, 0.45), (0, 0.2))\<rparr>"

definition short_folder :: folder where
  "short_folder = \<lparr>oil_values_txt = Some [FloatLit 7], simulation_data_txt = Some []\<rparr>"

text \<open>The configuration of the solver on the small mesh, without a restart.\<close>

definition square_config :: config where
  "square_config =
     \<lparr>cfg_meshName = ''square.msh'', cfg_tStart = 0, cfg_tEnd = 1, cfg_nSteps = 2,
      cfg_borders = ((0, 0.45), (0, 0.2)), cfg_restartFile = None\<rparr>"

text \<open>
  A mesh without boundary edges: the surface of a flat tetrahedron, a triangle and the
  three triangles that join its sides to a point inside it. The table of points, the
  block of cells, and the cells that \<^verbatim>\<open>Mesh.__init__\<close> and \<^verbatim>\<open>find_neighbors\<close> make of them,
  with the values 1, 0, 0, 0.
\<close>

definition tetra_points :: "vec list" where
  "tetra_points = [[0, 0, 0], [3, 0, 0], [0, 3, 0], [1, 1, 0]]"

definition tetra_blocks :: "(string \<times> nat list list) list" where
  "tetra_blocks = [(''triangle'', [[0, 1, 2], [0, 1, 3], [1, 2, 3], [0, 2, 3]])]"

definition tetra_mesh :: "cell list" where
  "tetra_mesh =
     [Triangle \<lparr>point_ids = [0, 1, 2], idx = 0, midpoint = [1, 1, 0],
                 neighbors = [1, 2, 3], points = [[0, 0, 0], [3, 0, 0], [0, 3, 0]],
                 velocity = [4 / 5, - 1, 0], oil_value = 1\<rparr>
               (9 / 2) [[0, - 3, 0], [3, 3, 0], [- 3, 0, 0]],
      Triangle \<lparr>point_ids = [0, 1, 3], idx = 1, midpoint = [4 / 3, 1 / 3, 0],
                 neighbors = [0, 2, 3], points = [[0, 0, 0], [3, 0, 0], [1, 1, 0]],
                 velocity = [1 / 15, - (4 / 3), 0], oil_value = 0\<rparr>
               (3 / 2) [[0, - 3, 0], [1, 2, 0], [- 1, 1, 0]],
      Triangle \<lparr>point_ids = [1, 2, 3], idx = 2, midpoint = [4 / 3, 4 / 3, 0],
                 neighbors = [0, 3, 1], points = [[3, 0, 0], [0, 3, 0], [1, 1, 0]],
                 velocity = [16 / 15, - (4 / 3), 0], oil_value = 0\<rparr>
               (3 / 2) [[3, 3, 0], [- 2, - 1, 0], [- 1, - 2, 0]],
      Triangle \<lparr>point_ids = [0, 2, 3], idx = 3, midpoint = [1 / 3, 4 / 3, 0],
                 neighbors = [0, 2, 1], points = [[0, 0, 0], [0, 3, 0], [1, 1, 0]],
                 velocity = [19 / 15, - (1 / 3), 0], oil_value = 0\<rparr>
               (3 / 2) [[- 3, 0, 0], [2, 1, 0], [1, - 1, 0]]]"

text \<open>
  Two triangles of areas 1/2 and 1 with a common edge and no other cell, with the values
  0 and 1.
\<close>

definition kite_points :: "vec list" where
  "kite_points = [[0, 0, 0], [1, 0, 0], [1, 1, 0], [0, 2, 0]]"

definition kite_blocks :: "(string \<times> nat list list) list" where
  "kite_blocks = [(''triangle'', [[0, 1, 2], [0, 2, 3]])]"

definition kite_mesh :: "cell list" where
  "kite_mesh =
     [Triangle \<lparr>point_ids = [0, 1, 2], idx = 0, midpoint = [2 / 3, 1 / 3, 0],
                 neighbors = [- 1, - 1, 1], points = [[0, 0, 0], [1, 0, 0], [1, 1, 0]],
                 velocity = [1 / 5, - (2 / 3), 0], oil_value = 0\<rparr>
               (1 / 2) [[0, - 1, 0], [1, 0, 0], [- 1, 1, 0]],
      Triangle \<lparr>point_ids = [0, 2, 3], idx = 1, midpoint = [1 / 3, 1, 0],
                 neighbors = [0, - 1, - 1], points = [[0, 0, 0], [1, 1, 0], [0, 2, 0]],
                 velocity = [14 / 15, - (1 / 3), 0], oil_value = 1\<rparr>
               1 [[1, - 1, 0], [1, 1, 0], [- 2, 0, 0]]]"

section \<open>Theorems\<close>

subsection \<open>Auxiliary facts\<close>

lemma float_round_1: "float_round 1 = 1"
  by (simp add: float_round_def scale_mantissa.simps round_half_even_def)

lemma float_round_2: "float_round 2 = 2"
  by (simp add: float_round_def scale_mantissa.simps round_half_even_def)

lemma float_round_half: "float_round (1 / 2) = 1 / 2"
  by (simp add: float_round_def scale_mantissa.simps round_half_even_def)

lemma square_solver_dt: "float_div (float_sub 1 0) (float_round 2) = 1 / 2"
  by (simp add: float_div_def float_sub_def float_round_1 float_round_2 float_round_half)

lemma square_solver_steps:
  "py_trunc (float_div (float_sub 1 0) (1 / 2)) = 2"
  by (simp add: float_div_def float_sub_def float_round_1 float_round_2 py_trunc_def)

lemma flux_function_eq_upwind:
  "length n = length v \<Longrightarrow> flux_function a b n v = Inr (upwind a b n v)"
  by (simp add: flux_function_def dot_def upwind_def Let_def)

lemma length_avg_velocity: "length (avg_velocity v w) = min (length v) (length w)"
  by (simp add: avg_velocity_def)

lemma avg_velocity_mean:
  assumes "length v = 3" and "length w = 3"
  shows "avg_velocity v w = mean_velocity v w"
proof -
  from assms(1) obtain v0 v1 v2 where v: "v = [v0, v1, v2]"
    by (cases v; cases "tl v"; cases "tl (tl v)") auto
  from assms(2) obtain w0 w1 w2 where w: "w = [w0, w1, w2]"
    by (cases w; cases "tl w"; cases "tl (tl w)") auto
  show ?thesis by (simp add: v w avg_velocity_def mean_velocity_def)
qed

lemma enumerate_nth_map: "enumerate k xs = map (\<lambda>i. (k + i, xs ! i)) [0..<length xs]"
  by (induction xs arbitrary: k) (auto simp: map_upt_Suc simp del: upt_Suc)

lemma flux_loop_Triangle:
  assumes "length (velocity a) = 3"
    and "list_all (\<lambda>(e, ngh). 0 \<le> ngh \<longrightarrow> e < length ns \<and> nat ngh < length cells
            \<and> length (ns ! e) = 3 \<and> length (velocity (attrs (cells ! nat ngh))) = 3) es"
  shows "flux_loop tstep cells u ci (Triangle a ar ns) es up =
    Inr (up - sum_list (map (\<lambda>(e, ngh). tstep / ar * upwind (u ! ci) (u ! nat ngh) (ns ! e)
              (avg_velocity (velocity a) (velocity (attrs (cells ! nat ngh)))))
            (filter (\<lambda>(e, ngh). 0 \<le> ngh) es)))"
  using assms(2)
proof (induction es arbitrary: up)
  case Nil
  then show ?case by simp
next
  case (Cons x es)
  obtain e ngh where x: "x = (e, ngh)" by (cases x)
  show ?case
  proof (cases "ngh < 0")
    case True
    then show ?thesis using Cons x by simp
  next
    case False
    with Cons.prems x have h: "e < length ns" "nat ngh < length cells" "length (ns ! e) = 3"
      "length (velocity (attrs (cells ! nat ngh))) = 3" "list_all (\<lambda>(e, ngh). 0 \<le> ngh \<longrightarrow> e < length ns \<and> nat ngh < length cells
            \<and> length (ns ! e) = 3 \<and> length (velocity (attrs (cells ! nat ngh))) = 3) es"
      by auto
    have f: "flux_function (u ! ci) (u ! nat ngh) (ns ! e)
        (avg_velocity (velocity a) (velocity (attrs (cells ! nat ngh))))
      = Inr (upwind (u ! ci) (u ! nat ngh) (ns ! e)
        (avg_velocity (velocity a) (velocity (attrs (cells ! nat ngh)))))"
      by (rule flux_function_eq_upwind) (simp add: length_avg_velocity h assms(1))
    show ?thesis using False x h f Cons.IH [OF h(5)] by simp
  qed
qed

lemma flux_loop_Line:
  "list_all (\<lambda>(e, ngh). ngh < 0) es \<Longrightarrow> flux_loop tstep cells u ci c es up = Inr up"
  by (induction es arbitrary: up) auto


lemma collect_map_Inr:
  "(\<And>x. x \<in> set xs \<Longrightarrow> f x = Inr (g x)) \<Longrightarrow> collect (map f xs) = Inr (map g xs)"
  by (induction xs) auto

lemma cell_ok_velocity: "cell_ok n c \<Longrightarrow> length (velocity (attrs c)) = 3"
  by (cases c) auto

lemma mesh_ok_nth: "mesh_ok cells \<Longrightarrow> i < length cells \<Longrightarrow> cell_ok (length cells) (cells ! i)"
  by (simp add: mesh_ok_def list_all_length)

lemma cell_step:
  assumes ok: "mesh_ok cells" and i: "i < length cells"
  shows "flux_loop tstep cells (map (\<lambda>c. oil_value (attrs c)) cells) i (cells ! i)
           (enumerate 0 (neighbors (attrs (cells ! i)))) 0
         = Inr (jacobi_value tstep cells i - oil_value (attrs (cells ! i)))"
proof (cases "cells ! i")
  case (Triangle a ar ns)
  let ?u = "map (\<lambda>c. oil_value (attrs c)) cells"
  let ?nb = "neighbors a"
  from mesh_ok_nth [OF ok i] Triangle
  have v: "length (velocity a) = 3" and ln: "length ns = length ?nb"
    and nm: "list_all (\<lambda>nm. length nm = 3) ns"
    and ng: "list_all (\<lambda>ngh. ngh < int (length cells)) ?nb"
    by simp_all
  have pre: "list_all (\<lambda>(e, ngh). 0 \<le> ngh \<longrightarrow> e < length ns \<and> nat ngh < length cells
            \<and> length (ns ! e) = 3 \<and> length (velocity (attrs (cells ! nat ngh))) = 3)
          (enumerate 0 ?nb)"
    unfolding enumerate_nth_map list_all_iff
  proof (clarsimp)
    fix e assume e: "e < length ?nb" and nn: "0 \<le> ?nb ! e"
    from ng e have "?nb ! e < int (length cells)" by (simp add: list_all_length)
    with nn have lt: "nat (?nb ! e) < length cells" by linarith
    from nm e ln have "length (ns ! e) = 3" by (simp add: list_all_length)
    moreover have "length (velocity (attrs (cells ! nat (?nb ! e)))) = 3"
      using cell_ok_velocity [OF mesh_ok_nth [OF ok lt]] .
    ultimately show "e < length ns \<and> nat (?nb ! e) < length cells \<and> length (ns ! e) = 3
        \<and> length (velocity (attrs (cells ! nat (?nb ! e)))) = 3"
      using e ln lt by simp
  qed
  have ui: "?u ! i = oil_value a" using i Triangle by simp
  have sum_eq: "sum_list (map (\<lambda>(e, ngh). tstep / ar * upwind (?u ! i) (?u ! nat ngh) (ns ! e)
              (avg_velocity (velocity a) (velocity (attrs (cells ! nat ngh)))))
            (filter (\<lambda>(e, ngh). 0 \<le> ngh) (enumerate 0 ?nb)))
        = sum_list (map (edge_term tstep cells i) (interior_edges cells i))"
  proof -
    have "map (\<lambda>(e, ngh). tstep / ar * upwind (?u ! i) (?u ! nat ngh) (ns ! e)
              (avg_velocity (velocity a) (velocity (attrs (cells ! nat ngh)))))
            (filter (\<lambda>(e, ngh). 0 \<le> ngh) (enumerate 0 ?nb))
        = map (edge_term tstep cells i) (interior_edges cells i)"
      unfolding enumerate_nth_map interior_edges_def filter_map map_map
    proof (rule map_cong)
      show "filter ((\<lambda>(e, ngh). 0 \<le> ngh) \<circ> (\<lambda>ia. (0 + ia, ?nb ! ia))) [0..<length ?nb]
          = filter (\<lambda>e. 0 \<le> neighbors (attrs (cells ! i)) ! e)
              [0..<length (neighbors (attrs (cells ! i)))]"
        using Triangle by (simp add: comp_def)
    next
      fix e assume "e \<in> set (filter (\<lambda>e. 0 \<le> neighbors (attrs (cells ! i)) ! e)
              [0..<length (neighbors (attrs (cells ! i)))])"
      then have e: "e < length ?nb" and nn: "0 \<le> ?nb ! e" using Triangle by auto
      from ng e have "?nb ! e < int (length cells)" by (simp add: list_all_length)
      with nn have lt: "nat (?nb ! e) < length cells" by linarith
      show "((\<lambda>(e, ngh). tstep / ar * upwind (?u ! i) (?u ! nat ngh) (ns ! e)
              (avg_velocity (velocity a) (velocity (attrs (cells ! nat ngh)))))
             \<circ> (\<lambda>ia. (0 + ia, ?nb ! ia))) e = edge_term tstep cells i e"
        using Triangle ui lt avg_velocity_mean [OF v cell_ok_velocity [OF mesh_ok_nth [OF ok lt]]]
        by (simp add: edge_term_def edge_flux_def Let_def)
    qed
    then show ?thesis by simp
  qed
  show ?thesis
    using flux_loop_Triangle [OF v pre, of tstep ?u i ar 0] sum_eq Triangle
    by (simp add: jacobi_value_def)
next
  case (Line a)
  from mesh_ok_nth [OF ok i] Line
  have ng: "list_all (\<lambda>ngh. ngh < 0) (neighbors a)" by simp
  then have "list_all (\<lambda>(e, ngh). ngh < 0) (enumerate 0 (neighbors a))"
    by (auto simp: enumerate_nth_map list_all_iff)
  moreover have "interior_edges cells i = []"
    using ng Line by (auto simp: interior_edges_def list_all_length filter_empty_conv)
  ultimately show ?thesis
    using Line by (simp add: flux_loop_Line jacobi_value_def)
qed

lemma calculate_cells_result:
  assumes ok: "mesh_ok cells"
  shows "calculate_cells tstep cells
         = Inr (map (\<lambda>i. set_oil_value (cells ! i) (jacobi_value tstep cells i)) [0..<length cells])"
proof -
  let ?u = "map (\<lambda>c. oil_value (attrs c)) cells"
  have "collect (map (\<lambda>(cell_idx, cell).
                     case flux_loop tstep cells ?u cell_idx cell
                            (enumerate 0 (neighbors (attrs cell))) 0 of
                       Inl e \<Rightarrow> Inl e
                     | Inr up \<Rightarrow> Inr (?u ! cell_idx + up))
                  (enumerate 0 cells))
      = Inr (map (\<lambda>(i, c). jacobi_value tstep cells i) (enumerate 0 cells))"
  proof (rule collect_map_Inr)
    fix x assume "x \<in> set (enumerate 0 cells)"
    then obtain i where i: "i < length cells" and x: "x = (i, cells ! i)"
      by (auto simp: enumerate_nth_map)
    show "(case x of (cell_idx, cell) \<Rightarrow>
             case flux_loop tstep cells ?u cell_idx cell (enumerate 0 (neighbors (attrs cell))) 0 of
               Inl e \<Rightarrow> Inl e | Inr up \<Rightarrow> Inr (?u ! cell_idx + up))
          = Inr (case x of (i, c) \<Rightarrow> jacobi_value tstep cells i)"
      using cell_step [OF ok i, of tstep] i x by simp
  qed
  moreover have "map2 set_oil_value cells (map (\<lambda>(i, c). jacobi_value tstep cells i) (enumerate 0 cells))
      = map (\<lambda>i. set_oil_value (cells ! i) (jacobi_value tstep cells i)) [0..<length cells]"
    by (rule nth_equalityI) (simp_all add: nth_enumerate_eq)
  ultimately show ?thesis by (simp add: calculate_cells_def)
qed

lemma linalg_norm3: "linalg_norm [x, y, z] = sqrt (x * x + y * y + z * z)"
  by (simp add: linalg_norm_def)

lemma edge_normal_eq:
  assumes v: "map2 (-) p2 p1 = [vx, vy, 0]"
    and d: "dot [- vy, vx, 0] (map2 (-) p1 mid) = Inr d"
    and nz: "vx \<noteq> 0 \<or> vy \<noteq> 0"
  shows "edge_normal mid p1 p2 = Inr (if d < 0 then [vy, - vx, 0] else [- vy, vx, 0])"
proof -
  define S where "S = sqrt (vx * vx + vy * vy)"
  have "vx * vx + vy * vy \<noteq> 0"
    using nz by (auto simp: add_nonneg_eq_0_iff)
  then have S: "S \<noteq> 0" by (simp add: S_def)
  have n1: "linalg_norm [vx, vy, 0] = S" by (simp add: linalg_norm3 S_def)
  have n2: "linalg_norm [- vy, vx, 0] = S" by (simp add: linalg_norm3 S_def add.commute)
  have n3: "linalg_norm [vy, - vx, 0] = S" by (simp add: linalg_norm3 S_def add.commute)
  show ?thesis
    unfolding edge_normal_def v
    using S by (simp add: d n1 n2 n3)
qed


lemma edge_normal_planar:
  assumes "x1 \<noteq> x2 \<or> y1 \<noteq> y2"
  shows "edge_normal [mx, my, mz] [x1, y1, z] [x2, y2, z] =
     Inr (if (y1 - y2) * (x1 - mx) + (x2 - x1) * (y1 - my) < 0
          then [y2 - y1, x1 - x2, 0] else [y1 - y2, x2 - x1, 0])"
  using assms
    edge_normal_eq [of "[x2, y2, z]" "[x1, y1, z]" "x2 - x1" "y2 - y1" "[mx, my, mz]"
      "(y1 - y2) * (x1 - mx) + (x2 - x1) * (y1 - my)"]
  by (auto simp: dot_def)

subsection \<open>The flux function\<close>

text \<open>
  C2. For vectors of equal length, \<open>flux_function a b n v\<close> returns \<open>a\<close> times the dot
  product of \<open>n\<close> and \<open>v\<close> when that dot product is positive, and \<open>b\<close> times the dot
  product otherwise. In particular the flux of 0.8, 0.4 across the normal [1, 0] with
  velocity [0.5, 0] is 0.4, and across the normal [-1, 0] it is -0.2.
\<close>

theorem flux_function_upwind:
  "(length n = length v \<longrightarrow>
      flux_function a b n v =
        Inr (if sum_list (map2 (*) n v) > 0 then a * sum_list (map2 (*) n v)
             else b * sum_list (map2 (*) n v)))
   \<and> flux_function 0.8 0.4 [1, 0] [0.5, 0] = Inr 0.4
   \<and> flux_function 0.8 0.4 [-1, 0] [0.5, 0] = Inr (-0.2)"
  by (simp add: flux_function_def dot_def)

theorem flux_function_upwind_witness:
  "length [0, 1 :: real] = length [0, - 0.5 :: real]
   \<and> flux_function 1 0.5 [0, 1] [0, - 0.5] = Inr (- 0.25)"
  using flux_function_upwind [of "[0, 1]" "[0, - 0.5]" 1 "0.5"] by simp

subsection \<open>The small mesh is what the constructors build\<close>

lemma square_mesh_built:
  "map_sum id find_neighbors (Mesh_init square_points square_blocks) = Inr square_mesh"
proof -
  have "\<exists>cs. Mesh_init square_points square_blocks = Inr cs \<and> find_neighbors cs = square_mesh"
    by (simp add: Mesh_init_def square_points_def square_blocks_def factory_def
        Triangle_init_def Line_init_def Cell_init_def mean_axis0_def Let_def
        edge_normal_planar find_neighbors_def shared_edge_def enumerate_eq_zip
        square_mesh_def)
  then show ?thesis by auto
qed

lemma mesh_ok_square_mesh: "mesh_ok square_mesh"
  by (simp add: mesh_ok_def square_mesh_def)

subsection \<open>One time step\<close>

lemma sum_list_map2_3:
  "length n = 3 \<Longrightarrow> sum_list (map2 (*) n [x, y, z]) = n ! 0 * x + n ! 1 * y + n ! 2 * (z::real)"
  by (cases n; cases "tl n"; cases "tl (tl n)") auto

lemma jacobi_value_Triangle:
  assumes ok: "mesh_ok cells" and i: "i < length cells" and tri: "cells ! i = Triangle a ar ns"
  shows "jacobi_value tstep cells i =
     oil_value a
       - (\<Sum>e\<leftarrow>filter (\<lambda>e. 0 \<le> neighbors a ! e) [0..<length (neighbors a)].
            tstep / ar *
              (let b = attrs (cells ! nat (neighbors a ! e));
                   angle = ns ! e ! 0 * (0.5 * (velocity a ! 0 + velocity b ! 0))
                         + ns ! e ! 1 * (0.5 * (velocity a ! 1 + velocity b ! 1))
                         + ns ! e ! 2 * (0.5 * (velocity a ! 2 + velocity b ! 2))
               in if angle > 0 then oil_value a * angle else oil_value b * angle))"
proof -
  from mesh_ok_nth [OF ok i] tri
  have ln: "length ns = length (neighbors a)" and nm: "list_all (\<lambda>nm. length nm = 3) ns"
    by simp_all
  have "map (edge_term tstep cells i) (interior_edges cells i)
      = map (\<lambda>e. tstep / ar *
              (let b = attrs (cells ! nat (neighbors a ! e));
                   angle = ns ! e ! 0 * (0.5 * (velocity a ! 0 + velocity b ! 0))
                         + ns ! e ! 1 * (0.5 * (velocity a ! 1 + velocity b ! 1))
                         + ns ! e ! 2 * (0.5 * (velocity a ! 2 + velocity b ! 2))
               in if angle > 0 then oil_value a * angle else oil_value b * angle))
          (filter (\<lambda>e. 0 \<le> neighbors a ! e) [0..<length (neighbors a)])"
  proof (rule map_cong)
    show "interior_edges cells i = filter (\<lambda>e. 0 \<le> neighbors a ! e) [0..<length (neighbors a)]"
      using tri by (simp add: interior_edges_def)
  next
    fix e assume "e \<in> set (filter (\<lambda>e. 0 \<le> neighbors a ! e) [0..<length (neighbors a)])"
    then have "e < length ns" using ln by simp
    with nm have "length (ns ! e) = 3" by (simp add: list_all_length)
    then show "edge_term tstep cells i e = tstep / ar *
              (let b = attrs (cells ! nat (neighbors a ! e));
                   angle = ns ! e ! 0 * (0.5 * (velocity a ! 0 + velocity b ! 0))
                         + ns ! e ! 1 * (0.5 * (velocity a ! 1 + velocity b ! 1))
                         + ns ! e ! 2 * (0.5 * (velocity a ! 2 + velocity b ! 2))
               in if angle > 0 then oil_value a * angle else oil_value b * angle)"
      using tri
      by (simp add: edge_term_def edge_flux_def upwind_def mean_velocity_def Let_def
          sum_list_map2_3)
  qed
  then show ?thesis using tri by (simp add: jacobi_value_def)
qed

text \<open>
  C1. On a mesh with the shape that the constructors establish and with triangles of
  area other than zero, one call of the time step returns, and in its result every
  Triangle is the Triangle it was before the step, with the same attributes, area and
  normals, but for its value: the new value is the value before the step minus the sum,
  over the edges \<open>e\<close> that have a neighbour (index 0 or more), of the step divided by the
  area times the flux, where the angle is the dot product of the normal of \<open>e\<close> with
  half the sum of the velocities of the cell and of the neighbour, and the flux is the
  value of the cell times the angle if the angle is positive and the value of the
  neighbour times the angle otherwise. Every value read is a value of the state before
  the step.
\<close>

theorem calculate_jacobi_update:
  assumes "mesh_ok cells" and "list_all nonzero_area cells"
  shows "\<exists>cells'. calculate_cells tstep cells = Inr cells'
           \<and> length cells' = length cells
           \<and> (\<forall>i < length cells. \<forall>a ar ns. cells ! i = Triangle a ar ns \<longrightarrow>
                 cells' ! i =
                   Triangle
                     (a\<lparr>oil_value :=
                          oil_value a
                            - (\<Sum>e\<leftarrow>filter (\<lambda>e. 0 \<le> neighbors a ! e) [0..<length (neighbors a)].
                                 tstep / ar *
                                   (let b = attrs (cells ! nat (neighbors a ! e));
                                        angle =
                                          ns ! e ! 0 * (0.5 * (velocity a ! 0 + velocity b ! 0))
                                          + ns ! e ! 1 * (0.5 * (velocity a ! 1 + velocity b ! 1))
                                          + ns ! e ! 2 * (0.5 * (velocity a ! 2 + velocity b ! 2))
                                    in if angle > 0 then oil_value a * angle
                                       else oil_value b * angle))\<rparr>)
                     ar ns)"
proof -
  let ?cells' = "map (\<lambda>i. set_oil_value (cells ! i) (jacobi_value tstep cells i)) [0..<length cells]"
  have c: "calculate_cells tstep cells = Inr ?cells'"
    by (rule calculate_cells_result [OF assms(1)])
  have l: "length ?cells' = length cells" by simp
  have u: "\<forall>i < length cells. \<forall>a ar ns. cells ! i = Triangle a ar ns \<longrightarrow>
                 ?cells' ! i =
                   Triangle
                     (a\<lparr>oil_value :=
                          oil_value a
                            - (\<Sum>e\<leftarrow>filter (\<lambda>e. 0 \<le> neighbors a ! e) [0..<length (neighbors a)].
                                 tstep / ar *
                                   (let b = attrs (cells ! nat (neighbors a ! e));
                                        angle =
                                          ns ! e ! 0 * (0.5 * (velocity a ! 0 + velocity b ! 0))
                                          + ns ! e ! 1 * (0.5 * (velocity a ! 1 + velocity b ! 1))
                                          + ns ! e ! 2 * (0.5 * (velocity a ! 2 + velocity b ! 2))
                                    in if angle > 0 then oil_value a * angle
                                       else oil_value b * angle))\<rparr>)
                     ar ns"
  proof (intro allI impI)
    fix i a ar ns assume i: "i < length cells" and tri: "cells ! i = Triangle a ar ns"
    have "?cells' ! i = set_oil_value (cells ! i) (jacobi_value tstep cells i)"
      using i by simp
    also have "\<dots> = Triangle (a\<lparr>oil_value := jacobi_value tstep cells i\<rparr>) ar ns"
      using tri by simp
    finally show "?cells' ! i =
                   Triangle
                     (a\<lparr>oil_value :=
                          oil_value a
                            - (\<Sum>e\<leftarrow>filter (\<lambda>e. 0 \<le> neighbors a ! e) [0..<length (neighbors a)].
                                 tstep / ar *
                                   (let b = attrs (cells ! nat (neighbors a ! e));
                                        angle =
                                          ns ! e ! 0 * (0.5 * (velocity a ! 0 + velocity b ! 0))
                                          + ns ! e ! 1 * (0.5 * (velocity a ! 1 + velocity b ! 1))
                                          + ns ! e ! 2 * (0.5 * (velocity a ! 2 + velocity b ! 2))
                                    in if angle > 0 then oil_value a * angle
                                       else oil_value b * angle))\<rparr>)
                     ar ns"
      unfolding jacobi_value_Triangle [OF assms(1) i tri] .
  qed
  from c l u show ?thesis by (intro exI [of _ ?cells'] conjI)
qed

theorem calculate_jacobi_update_witness:
  "mesh_ok square_mesh \<and> list_all nonzero_area square_mesh
   \<and> (\<exists>cells'. calculate_cells (1 / 10) square_mesh = Inr cells'
         \<and> length cells' = 3
         \<and> oil_value (attrs (cells' ! 1))
             = oil_value (attrs (square_mesh ! 1)) + 9 / 50 * oil_value (attrs (square_mesh ! 2))
         \<and> neighbors (attrs (cells' ! 1)) = [- 1, - 1, 2] \<and> area (cells' ! 1) = 1 / 2)"
proof -
  have nz: "list_all nonzero_area square_mesh" by (simp add: square_mesh_def)
  have i: "1 < length square_mesh" and len: "length square_mesh = 3"
    by (simp_all add: square_mesh_def)
  have tri: "square_mesh ! 1 =
      Triangle (attrs (square_mesh ! 1)) (1 / 2) [[0, - 1, 0], [1, 0, 0], [- 1, 1, 0]]"
    by (simp add: square_mesh_def)
  from calculate_jacobi_update [OF mesh_ok_square_mesh nz, of "1 / 10"]
  obtain cells' where c: "calculate_cells (1 / 10) square_mesh = Inr cells'"
    and l: "length cells' = length square_mesh"
    and u: "\<And>i a ar ns. i < length square_mesh \<Longrightarrow> square_mesh ! i = Triangle a ar ns \<Longrightarrow>
                 cells' ! i =
                   Triangle
                     (a\<lparr>oil_value :=
                          oil_value a
                            - (\<Sum>e\<leftarrow>filter (\<lambda>e. 0 \<le> neighbors a ! e) [0..<length (neighbors a)].
                                 (1 / 10) / ar *
                                   (let b = attrs (square_mesh ! nat (neighbors a ! e));
                                        angle =
                                          ns ! e ! 0 * (0.5 * (velocity a ! 0 + velocity b ! 0))
                                          + ns ! e ! 1 * (0.5 * (velocity a ! 1 + velocity b ! 1))
                                          + ns ! e ! 2 * (0.5 * (velocity a ! 2 + velocity b ! 2))
                                    in if angle > 0 then oil_value a * angle
                                       else oil_value b * angle))\<rparr>)
                     ar ns"
    by blast
  have "oil_value (attrs (cells' ! 1))
             = oil_value (attrs (square_mesh ! 1)) + 9 / 50 * oil_value (attrs (square_mesh ! 2))
         \<and> neighbors (attrs (cells' ! 1)) = [- 1, - 1, 2] \<and> area (cells' ! 1) = 1 / 2"
    unfolding u [OF i tri] by (simp add: square_mesh_def Let_def)
  with c l len nz mesh_ok_square_mesh show ?thesis by auto
qed

subsection \<open>Neighbours\<close>

lemma find_append':
  "find P (xs @ ys) = (case find P xs of None \<Rightarrow> find P ys | Some x \<Rightarrow> Some x)"
  by (induction xs) auto

lemma length_neighbors_loop: "length (neighbors_loop pts es nb) = length nb"
  by (induction es arbitrary: nb) (auto split: option.splits)

lemma neighbors_loop_nth:
  "i < length nb \<Longrightarrow>
   neighbors_loop pts es nb ! i =
     (case find (\<lambda>(k, c). shared_edge pts (point_ids (attrs c)) = Some i) (rev es) of
        None \<Rightarrow> nb ! i
      | Some (k, c) \<Rightarrow> int k)"
proof (induction es arbitrary: nb)
  case Nil
  then show ?case by simp
next
  case (Cons x es)
  obtain k c where x: "x = (k, c)" by (cases x)
  show ?case
  proof (cases "shared_edge pts (point_ids (attrs c))")
    case None
    then show ?thesis using Cons x by (simp add: find_append' split: option.splits)
  next
    case (Some j)
    have "i < length (nb[j := int k])" using Cons.prems by simp
    from Cons.IH [OF this] Some x Cons.prems show ?thesis
      by (auto simp: find_append' nth_list_update split: option.splits)
  qed
qed

lemma shared_edge_distinct3:
  assumes "distinct [a, b, c]" and "i < 3"
  shows "shared_edge [a, b, c] other = Some i \<longleftrightarrow> edge_match [a, b, c] i other"
proof -
  have i: "i = 0 \<or> i = 1 \<or> i = 2" using assms(2) by auto
  have ins: "\<And>x A. insert x A \<inter> set other = (if x \<in> set other then insert x (A \<inter> set other) else A \<inter> set other)"
    by auto
  show ?thesis
    using assms(1) i
    by (cases "a \<in> set other"; cases "b \<in> set other"; cases "c \<in> set other")
       (auto simp: shared_edge_def edge_match_def ins)
qed

text \<open>
  C3, as amended. For a Triangle with three distinct point indices and no neighbour
  recorded yet, \<^verbatim>\<open>compute_neighbors\<close> records for every edge \<open>i\<close> the index of the last
  cell, in the order of creation, that has exactly two point indices in common with
  the triangle and contains both ends of the edge; if no cell matches, the entry
  stays -1.
\<close>

theorem compute_neighbors_last_match:
  assumes "length (point_ids a) = 3" and "distinct (point_ids a)"
    and "neighbors a = [- 1, - 1, - 1]" and "i < 3"
  shows "neighbors (attrs (compute_neighbors (Triangle a ar ns) cells)) ! i
         = neighbor_last (point_ids a) i cells"
proof -
  from assms(1) obtain p q r where pts: "point_ids a = [p, q, r]"
    by (cases "point_ids a"; cases "tl (point_ids a)"; cases "tl (tl (point_ids a))") auto
  have d: "distinct [p, q, r]" using assms(2) pts by simp
  have "find (\<lambda>(k, c). shared_edge [p, q, r] (point_ids (attrs c)) = Some i) (rev (enumerate 0 cells))
      = find (\<lambda>(k, c). edge_match [p, q, r] i (point_ids (attrs c))) (rev (enumerate 0 cells))"
    by (rule find_cong) (auto simp: shared_edge_distinct3 [OF d assms(4)])
  moreover have "[- 1, - 1, - 1 :: int] ! i = - 1"
    using assms(4) by (auto simp: nth_Cons' )
  ultimately show ?thesis
    using neighbors_loop_nth [of i "neighbors a" "point_ids a" "enumerate 0 cells"] assms(3,4) pts
    by (auto simp: neighbor_last_def split: option.splits)
qed

theorem compute_neighbors_last_match_witness:
  "neighbors (attrs (compute_neighbors
      (Triangle ((attrs (square_mesh ! 1))\<lparr>neighbors := [- 1, - 1, - 1]\<rparr>) (1 / 2) []) square_mesh)) ! 2
     = neighbor_last [0, 1, 2] 2 square_mesh
   \<and> neighbor_last [0, 1, 2] 2 square_mesh = 2"
proof -
  have "neighbor_last [0, 1, 2] 2 square_mesh = 2"
    by (simp add: neighbor_last_def square_mesh_def enumerate_eq_zip edge_match_def)
  moreover have "point_ids (attrs (square_mesh ! 1)) = [0, 1, 2]"
    by (simp add: square_mesh_def)
  ultimately show ?thesis
    using compute_neighbors_last_match
      [of "(attrs (square_mesh ! 1))\<lparr>neighbors := [- 1, - 1, - 1]\<rparr>" 2 "1 / 2" "[]" square_mesh]
    by simp
qed

text \<open>
  C3 as stated fails. In the small mesh the Line on the diagonal (cell 0) and the second
  triangle (cell 2) both match edge 2 of the first triangle (cell 1): the first match
  in the order of creation is cell 0, and the mesh records cell 2.
\<close>

theorem first_match_counterexample:
  "map_sum id find_neighbors (Mesh_init square_points square_blocks) = Inr square_mesh
   \<and> neighbors (attrs (square_mesh ! 1)) ! 2 = 2
   \<and> neighbor_first (point_ids (attrs (square_mesh ! 1))) 2 square_mesh = 0"
proof -
  have "neighbors (attrs (square_mesh ! 1)) ! 2 = 2"
    by (simp add: square_mesh_def)
  moreover have "neighbor_first (point_ids (attrs (square_mesh ! 1))) 2 square_mesh = 0"
    by (simp add: neighbor_first_def square_mesh_def enumerate_eq_zip edge_match_def)
  ultimately show ?thesis using square_mesh_built by simp
qed

subsection \<open>The constructor of a Triangle\<close>

text \<open>
  C4, as amended. Constructing a Triangle with other than three point indices, or with
  other than three points, raises an error, which is ValueError when the points have
  at least two columns. With three point indices and three points of three coordinates
  the construction always succeeds, and the area is half the absolute value of the
  determinant: a degenerate triangle is constructed, with the area 0.
\<close>

theorem Triangle_init_errors:
  "(length pids \<noteq> 3 \<or> length pts \<noteq> 3 \<longrightarrow> (\<exists>e. Triangle_init pids i pts = Inl e))
   \<and> ((length pids \<noteq> 3 \<or> length pts \<noteq> 3) \<and> pts \<noteq> [] \<and> 2 \<le> length (hd pts) \<longrightarrow>
        Triangle_init pids i pts = Inl ValueError)
   \<and> (length pids = 3 \<longrightarrow>
        (\<exists>a ns. Triangle_init pids i [[x0, y0, z0], [x1, y1, z1], [x2, y2, z2]]
           = Inr (Triangle a (0.5 * \<bar>(x0 - x2) * (y1 - y0) - (x0 - x1) * (y2 - y0)\<bar>) ns)))"
proof (intro conjI impI)
  assume "length pids \<noteq> 3 \<or> length pts \<noteq> 3"
  then show "\<exists>e. Triangle_init pids i pts = Inl e"
    by (auto simp: Triangle_init_def Let_def split: sum.splits)
next
  assume "(length pids \<noteq> 3 \<or> length pts \<noteq> 3) \<and> pts \<noteq> [] \<and> 2 \<le> length (hd pts)"
  then show "Triangle_init pids i pts = Inl ValueError"
    by (cases pts) (auto simp: Triangle_init_def Cell_init_def mean_axis0_def Let_def)
next
  assume "length pids = 3"
  then show "\<exists>a ns. Triangle_init pids i [[x0, y0, z0], [x1, y1, z1], [x2, y2, z2]]
           = Inr (Triangle a (0.5 * \<bar>(x0 - x2) * (y1 - y0) - (x0 - x1) * (y2 - y0)\<bar>) ns)"
    by (simp add: Triangle_init_def Cell_init_def mean_axis0_def Let_def edge_normal_def dot_def)
qed

theorem Triangle_init_errors_witness:
  "Triangle_init [0, 1] 0 [[0, 0, 0], [1, 0, 0]] = Inl ValueError
   \<and> (\<exists>a ns. Triangle_init [0, 1, 2] 0 [[0, 0, 0], [1, 0, 0], [1, 1, 0]] = Inr (Triangle a (1 / 2) ns))"
  using Triangle_init_errors [of "[0, 1]" "[[0, 0, 0], [1, 0, 0]]" 0 0 0 0 0 0 0 0 0 0]
    Triangle_init_errors [of "[0, 1, 2]" "[]" 0 0 0 0 1 0 0 1 1 0]
  by simp

text \<open>
  C4 as stated fails: three points on one line construct a Triangle of area 0, and no
  error is raised.
\<close>

theorem degenerate_triangle_counterexample:
  "map_sum id area (Triangle_init [0, 1, 2] 0 [[0, 0, 0], [1, 0, 0], [2, 0, 0]]) = Inr 0"
  by (simp add: Triangle_init_def Cell_init_def mean_axis0_def Let_def edge_normal_planar)

subsection \<open>The cells of the fishing area\<close>

text \<open>
  C10. The cells of the fishing area are the Triangles of the mesh whose midpoint has
  its first coordinate between \<open>x_min\<close> and \<open>x_max\<close> and its second between \<open>y_min\<close> and
  \<open>y_max\<close>, both bounds included: a Triangle whose midpoint lies on the border of the
  rectangle is in the result, and a Line never is.
\<close>

theorem fishing_cells_inclusive:
  "(c \<in> set (fishing_cells cells x_min x_max y_min y_max) \<longleftrightarrow>
      c \<in> set cells \<and> is_Triangle c
      \<and> x_min \<le> midpoint (attrs c) ! 0 \<and> midpoint (attrs c) ! 0 \<le> x_max
      \<and> y_min \<le> midpoint (attrs c) ! 1 \<and> midpoint (attrs c) ! 1 \<le> y_max)
   \<and> (c \<in> set cells \<and> is_Triangle c
        \<and> x_min \<le> midpoint (attrs c) ! 0 \<and> midpoint (attrs c) ! 0 \<le> x_max
        \<and> y_min \<le> midpoint (attrs c) ! 1 \<and> midpoint (attrs c) ! 1 \<le> y_max
        \<and> (midpoint (attrs c) ! 0 = x_min \<or> midpoint (attrs c) ! 0 = x_max
             \<or> midpoint (attrs c) ! 1 = y_min \<or> midpoint (attrs c) ! 1 = y_max)
       \<longrightarrow> c \<in> set (fishing_cells cells x_min x_max y_min y_max))
   \<and> (is_Line c \<longrightarrow> c \<notin> set (fishing_cells cells x_min x_max y_min y_max))"
  by (cases c) (auto simp: fishing_cells_def)

theorem fishing_cells_inclusive_witness:
  "square_mesh ! 1 \<in> set (fishing_cells square_mesh (2 / 3) 1 0 1)
   \<and> midpoint (attrs (square_mesh ! 1)) ! 0 = 2 / 3
   \<and> square_mesh ! 0 \<notin> set (fishing_cells square_mesh 0 1 0 1)
   \<and> midpoint (attrs (square_mesh ! 0)) = [1 / 2, 1 / 2, 0]"
  using fishing_cells_inclusive [of "square_mesh ! 1" square_mesh "2 / 3" 1 0 1]
    fishing_cells_inclusive [of "square_mesh ! 0" square_mesh 0 1 0 1]
  by (simp add: square_mesh_def)

subsection \<open>Saving and loading\<close>

lemma length_assign_values: "length (assign_values cs vs) = length cs"
  by (induction cs vs rule: assign_values.induct) auto

lemma nth_assign_values:
  "i < length cs \<Longrightarrow>
   assign_values cs vs ! i = (if i < length vs then set_oil_value (cs ! i) (vs ! i) else cs ! i)"
proof (induction cs vs arbitrary: i rule: assign_values.induct)
  case (1 c cs v vs)
  then show ?case by (cases i) auto
qed auto

lemma read_oil_values_lines:
  "read_oil_values (oil_values_lines cs) = Inr (map (\<lambda>c. oil_value (attrs c)) cs)"
  unfolding read_oil_values_def oil_values_lines_def map_map
  by (rule collect_map_Inr) simp

lemma read_simulation_data_mesh:
  "mesh (fst (read_simulation_data s ls)) = mesh s
   \<and> dt (fst (read_simulation_data s ls)) = dt s
   \<and> tEnd (fst (read_simulation_data s ls)) = tEnd s
   \<and> nt (fst (read_simulation_data s ls)) = nt s
   \<and> meshName (fst (read_simulation_data s ls)) = meshName s
   \<and> fishing_borders (fst (read_simulation_data s ls)) = fishing_borders s"
  by (induction s ls rule: read_simulation_data.induct)
     (auto split: list.splits sum.splits)

lemma split_colon_no_colon: "CHR '':'' \<notin> set t \<Longrightarrow> split_colon t = [t]"
  by (induction t) auto

lemma read_simulation_data_saved:
  assumes "simulation_data_lines s = Inr ls" and "CHR '':'' \<notin> set (meshName s)"
  shows "read_simulation_data s0 ls = (s0, None)"
  using assms
  by (auto simp: simulation_data_lines_def split_colon_no_colon split: list.splits)

lemma load_state_absent:
  "oil_values_txt f = None \<or> simulation_data_txt f = None \<Longrightarrow>
   load_state s f = (s, Some FileNotFoundError)"
  by (auto simp: load_state_def split: option.splits)

lemma load_state_mesh:
  assumes "oil_values_txt f = Some ol" and "simulation_data_txt f = Some ml"
    and "read_oil_values ol = Inr vs"
  shows "mesh (fst (load_state s f)) = assign_values (mesh s) vs"
proof -
  let ?s1 = "s\<lparr>mesh := assign_values (mesh s) vs\<rparr>"
  have "mesh (fst (read_simulation_data ?s1 ml)) = assign_values (mesh s) vs"
    using read_simulation_data_mesh [of ?s1 ml] by simp
  then show ?thesis
    using assms
    by (cases "read_simulation_data ?s1 ml")
       (auto simp: load_state_def split: option.splits)
qed

lemma load_state_no_error:
  assumes "oil_values_txt f = Some ol" and "simulation_data_txt f = Some ml"
    and "read_oil_values ol = Inr vs"
    and "snd (read_simulation_data (s\<lparr>mesh := assign_values (mesh s) vs\<rparr>) ml) = None"
    and "dt s \<noteq> 0"
  shows "snd (load_state s f) = None"
proof -
  let ?s1 = "s\<lparr>mesh := assign_values (mesh s) vs\<rparr>"
  have "dt (fst (read_simulation_data ?s1 ml)) = dt s"
    using read_simulation_data_mesh [of ?s1 ml] by simp
  then show ?thesis
    using assms
    by (cases "read_simulation_data ?s1 ml")
       (auto simp: load_state_def split: option.splits)
qed


lemma oil_value_set_oil_value: "oil_value (attrs (set_oil_value c v)) = v"
  by (cases c) auto

lemma flux_loop_Line_result:
  "flux_loop tstep cells u ci (Line a) es up = Inr r \<Longrightarrow> r = up"
  by (induction es arbitrary: up) (auto split: if_splits)

lemma collect_Inr_nth:
  "collect rs = Inr ys \<Longrightarrow> length ys = length rs \<and> (\<forall>i < length rs. rs ! i = Inr (ys ! i))"
proof (induction rs arbitrary: ys)
  case Nil
  then show ?case by simp
next
  case (Cons r rs)
  then obtain y ys' where "r = Inr y" "collect rs = Inr ys'" "ys = y # ys'"
    by (auto split: sum.splits)
  with Cons.IH [of ys'] show ?case by (auto simp: nth_Cons')
qed

lemma calculate_cells_Line:
  assumes c: "calculate_cells tstep cells = Inr cells'" and j: "j < length cells"
    and l: "is_Line (cells ! j)"
  shows "cells' ! j = cells ! j"
proof -
  from l obtain a where a: "cells ! j = Line a" by (cases "cells ! j") auto
  let ?u = "map (\<lambda>cell. oil_value (attrs cell)) cells"
  let ?body = "\<lambda>(cell_idx, cell).
                     case flux_loop tstep cells ?u cell_idx cell
                            (enumerate 0 (neighbors (attrs cell))) 0 of
                       Inl e \<Rightarrow> Inl e
                     | Inr up \<Rightarrow> Inr (?u ! cell_idx + up)"
  from c obtain u_new where col: "collect (map ?body (enumerate 0 cells)) = Inr u_new"
    and res: "cells' = map2 set_oil_value cells u_new"
    by (auto simp: calculate_cells_def Let_def split: sum.splits)
  from collect_Inr_nth [OF col] j
  have len: "length u_new = length cells" and "?body (j, cells ! j) = Inr (u_new ! j)"
    by (auto simp: nth_enumerate_eq)
  then have "u_new ! j = oil_value a"
    using a j by (auto split: sum.splits dest: flux_loop_Line_result)
  then show ?thesis using res len j a by simp
qed

text \<open>
  C5, as amended. Loading fails with FileNotFoundError when one of the two restart files
  is absent, and then the solver is unchanged. The number of saved values is not
  compared with the number of cells: when both files are present and the values parse,
  cell \<open>i\<close> takes the saved value \<open>i\<close> if there is one and keeps its value otherwise, the
  number of cells is unchanged, and no error is raised for a mismatch (none at all when
  the lines of the second file are read without error and \<open>dt\<close> is not zero).
\<close>

theorem load_state_absent_or_mismatch:
  "(oil_values_txt f = None \<or> simulation_data_txt f = None \<longrightarrow>
      load_state s f = (s, Some FileNotFoundError))
   \<and> (oil_values_txt f = Some ol \<and> simulation_data_txt f = Some ml
        \<and> read_oil_values ol = Inr vs \<and> i < length (mesh s) \<longrightarrow>
        length (mesh (fst (load_state s f))) = length (mesh s)
        \<and> mesh (fst (load_state s f)) ! i
            = (if i < length vs then set_oil_value (mesh s ! i) (vs ! i) else mesh s ! i))
   \<and> (oil_values_txt f = Some ol \<and> simulation_data_txt f = Some ml
        \<and> read_oil_values ol = Inr vs
        \<and> snd (read_simulation_data (s\<lparr>mesh := assign_values (mesh s) vs\<rparr>) ml) = None
        \<and> dt s \<noteq> 0 \<longrightarrow>
        snd (load_state s f) = None)"
  using load_state_absent [of f s] load_state_mesh [of f ol ml vs s]
    load_state_no_error [of f ol ml vs s]
  by (simp add: length_assign_values nth_assign_values)

theorem load_state_absent_or_mismatch_witness:
  "load_state square_solver \<lparr>oil_values_txt = None, simulation_data_txt = Some []\<rparr>
     = (square_solver, Some FileNotFoundError)
   \<and> mesh (fst (load_state square_solver short_folder)) ! 0 = set_oil_value (square_mesh ! 0) 7
   \<and> mesh (fst (load_state square_solver short_folder)) ! 1 = square_mesh ! 1
   \<and> snd (load_state square_solver short_folder) = None"
  using load_state_absent_or_mismatch
      [of "\<lparr>oil_values_txt = None, simulation_data_txt = Some []\<rparr>" square_solver]
    load_state_absent_or_mismatch
      [of short_folder square_solver "[FloatLit 7]" "[]" "[7]" 0]
    load_state_absent_or_mismatch
      [of short_folder square_solver "[FloatLit 7]" "[]" "[7]" 1]
  by (simp add: short_folder_def square_solver_def read_oil_values_def square_mesh_def)

text \<open>
  C5 as stated fails: a file with one value is loaded into the mesh of three cells (two
  of them triangles) without any error; the first cell takes the value and the two
  triangles keep theirs.
\<close>

theorem count_mismatch_counterexample:
  "oil_values_txt short_folder = Some [FloatLit 7]
   \<and> length (mesh square_solver) = 3
   \<and> length (filter is_Triangle (mesh square_solver)) = 2
   \<and> snd (load_state square_solver short_folder) = None
   \<and> map (\<lambda>c. oil_value (attrs c)) (mesh (fst (load_state square_solver short_folder)))
       = [7, oil_value (attrs (square_mesh ! 1)), oil_value (attrs (square_mesh ! 2))]"
  by (simp add: load_state_def short_folder_def square_solver_def read_oil_values_def
      square_mesh_def square_solver_steps)

text \<open>
  C8, as amended. Saving writes \<^verbatim>\<open>oil_values.txt\<close> with one value on each line, in the
  order of creation of the cells, one line for every cell of the mesh: the value of a
  Line is written as the value of a Triangle is.
\<close>

theorem save_state_oil_values:
  "oil_values_txt (fst (save_state s)) = Some (map (\<lambda>c. FloatLit (oil_value (attrs c))) (mesh s))"
  by (simp add: save_state_def oil_values_lines_def split: sum.splits)

theorem save_state_oil_values_witness:
  "oil_values_txt (fst (save_state square_solver))
     = Some [FloatLit 0, FloatLit (oil_value (attrs (square_mesh ! 1))),
             FloatLit (oil_value (attrs (square_mesh ! 2)))]"
  using save_state_oil_values [of square_solver]
  by (simp add: square_solver_def square_mesh_def)

text \<open>
  C8 as stated fails: for the small mesh, with two triangles and one Line, the file has
  three lines, and its first line is the value 0 of the Line.
\<close>

theorem save_state_lines_counterexample:
  "map_option length (oil_values_txt (fst (save_state square_solver))) = Some 3
   \<and> length (filter is_Triangle (mesh square_solver)) = 2
   \<and> is_Line (mesh square_solver ! 0)
   \<and> map_option (\<lambda>ls. ls ! 0) (oil_values_txt (fst (save_state square_solver))) = Some (FloatLit 0)"
  by (simp add: save_state_def oil_values_lines_def square_solver_def square_mesh_def
      split: sum.splits)

text \<open>
  C9, as amended. The value of a Line is 0 when it is constructed, and a time step that
  returns leaves every Line as it is. Loading a restart writes the saved value \<open>j\<close>,
  whatever it is, into cell \<open>j\<close>, a Line or not.
\<close>

theorem Line_value:
  "(Line_init pids i pts = Inr c \<longrightarrow> is_Line c \<and> oil_value (attrs c) = 0)
   \<and> (calculate_cells tstep cells = Inr cells' \<and> j < length cells \<and> is_Line (cells ! j) \<longrightarrow>
        cells' ! j = cells ! j)
   \<and> (oil_values_txt f = Some ol \<and> simulation_data_txt f = Some ml
        \<and> read_oil_values ol = Inr vs \<and> j < length (mesh s) \<and> j < length vs \<longrightarrow>
        oil_value (attrs (mesh (fst (load_state s f)) ! j)) = vs ! j)"
proof -
  have 1: "Line_init pids i pts = Inr c \<longrightarrow> is_Line c \<and> oil_value (attrs c) = 0"
    by (auto simp: Line_init_def split: sum.splits)
  have 2: "calculate_cells tstep cells = Inr cells' \<and> j < length cells \<and> is_Line (cells ! j) \<longrightarrow>
        cells' ! j = cells ! j"
    using calculate_cells_Line by blast
  have 3: "oil_values_txt f = Some ol \<and> simulation_data_txt f = Some ml
        \<and> read_oil_values ol = Inr vs \<and> j < length (mesh s) \<and> j < length vs \<longrightarrow>
        oil_value (attrs (mesh (fst (load_state s f)) ! j)) = vs ! j"
    using load_state_mesh [of f ol ml vs s]
    by (simp add: nth_assign_values oil_value_set_oil_value)
  from 1 2 3 show ?thesis by (intro conjI)
qed

theorem Line_value_witness:
  "Line_init [0, 2] 0 [[0, 0, 0], [1, 1, 0]] = Inr (square_mesh ! 0)
   \<and> is_Line (square_mesh ! 0) \<and> oil_value (attrs (square_mesh ! 0)) = 0
   \<and> (\<exists>cells'. calculate_cells (1 / 2) square_mesh = Inr cells' \<and> cells' ! 0 = square_mesh ! 0)
   \<and> oil_value (attrs (mesh (fst (load_state square_solver short_folder)) ! 0)) = 7"
proof -
  have l: "Line_init [0, 2] 0 [[0, 0, 0], [1, 1, 0]] = Inr (square_mesh ! 0)"
    by (simp add: Line_init_def Cell_init_def mean_axis0_def Let_def square_mesh_def)
  obtain cells' where c: "calculate_cells (1 / 2) square_mesh = Inr cells'"
    using calculate_cells_result [OF mesh_ok_square_mesh] by blast
  have len: "0 < length square_mesh" by (simp add: square_mesh_def)
  have f: "oil_values_txt short_folder = Some [FloatLit 7]"
    "simulation_data_txt short_folder = Some []" "read_oil_values [FloatLit 7] = Inr [7]"
    "0 < length (mesh square_solver)"
    by (simp_all add: short_folder_def read_oil_values_def square_solver_def square_mesh_def)
  from Line_value [of "[0, 2]" 0 "[[0, 0, 0], [1, 1, 0]]" "square_mesh ! 0"
      "1 / 2" square_mesh cells' 0 short_folder "[FloatLit 7]" "[]" "[7]" square_solver]
    l c len f
  show ?thesis by auto
qed

text \<open>
  C9 as stated fails: loading the folder whose file of values begins with 7 raises no
  error and leaves the Line of the small mesh, whose value was 0, with the value 7.
\<close>

theorem Line_value_counterexample:
  "is_Line (mesh square_solver ! 0)
   \<and> oil_value (attrs (mesh square_solver ! 0)) = 0
   \<and> snd (load_state square_solver short_folder) = None
   \<and> is_Line (mesh (fst (load_state square_solver short_folder)) ! 0)
   \<and> oil_value (attrs (mesh (fst (load_state square_solver short_folder)) ! 0)) = 7"
  by (simp add: load_state_def short_folder_def square_solver_def read_oil_values_def
      square_mesh_def square_solver_steps)

subsection \<open>Restart after a run\<close>

lemma load_saved_state:
  assumes "mesh s \<noteq> []" and "CHR '':'' \<notin> set (meshName s)" and "dt s0 \<noteq> 0"
  shows "load_state s0 (fst (save_state s))
         = (s0\<lparr>mesh := assign_values (mesh s0) (map (\<lambda>c. oil_value (attrs c)) (mesh s)),
                nt := py_trunc (float_div (float_sub (tEnd s0) (tStart s0)) (dt s0))\<rparr>, None)"
proof -
  from assms(1) have "\<exists>ls. simulation_data_lines s = Inr ls"
    by (cases "mesh s") (simp_all add: simulation_data_lines_def)
  then obtain ls where ls: "simulation_data_lines s = Inr ls" ..
  then have f: "fst (save_state s)
      = \<lparr>oil_values_txt = Some (oil_values_lines (mesh s)), simulation_data_txt = Some ls\<rparr>"
    by (simp add: save_state_def)
  show ?thesis
    unfolding f
    by (simp add: load_state_def read_oil_values_lines
        read_simulation_data_saved [OF ls assms(2)] assms(3))
qed

lemma cell_ok_set_oil_value: "cell_ok n (set_oil_value c v) = cell_ok n c"
  by (cases c) auto

lemma mesh_ok_calculate_cells:
  assumes "mesh_ok cells" and "calculate_cells tstep cells = Inr cells'"
  shows "mesh_ok cells' \<and> length cells' = length cells"
proof -
  from assms calculate_cells_result [OF assms(1), of tstep]
  have c: "cells' = map (\<lambda>i. set_oil_value (cells ! i) (jacobi_value tstep cells i)) [0..<length cells]"
    by simp
  then have len: "length cells' = length cells" by simp
  moreover have "list_all (cell_ok (length cells')) cells'"
    unfolding list_all_length
  proof (intro allI impI)
    fix i assume "i < length cells'"
    then show "cell_ok (length cells') (cells' ! i)"
      using c len mesh_ok_nth [OF assms(1), of i] by (simp add: cell_ok_set_oil_value)
  qed
  ultimately show ?thesis by (simp add: mesh_ok_def)
qed

lemma time_loop_ok:
  assumes "mesh_ok (mesh s)"
  shows "\<exists>s' data'. time_loop s steps data = Inr (s', data')
           \<and> mesh_ok (mesh s') \<and> length (mesh s') = length (mesh s)
           \<and> tStart s' = tStart s \<and> tEnd s' = tEnd s \<and> nt s' = nt s \<and> dt s' = dt s
           \<and> meshName s' = meshName s \<and> fishing_borders s' = fishing_borders s
           \<and> map fst data' = map fst data @ map (\<lambda>k. tStart s + of_int k * dt s) steps"
  using assms
proof (induction steps arbitrary: s data)
  case Nil
  then show ?case by simp
next
  case (Cons k steps)
  obtain cells' where c: "calculate_cells (dt s) (mesh s) = Inr cells'"
    using calculate_cells_result [OF Cons.prems] by blast
  let ?s1 = "s\<lparr>mesh := cells'\<rparr>"
  have ok: "mesh_ok (mesh ?s1)" and len: "length (mesh ?s1) = length (mesh s)"
    using mesh_ok_calculate_cells [OF Cons.prems c] by simp_all
  from Cons.IH [OF ok, of "data @ [(tStart ?s1 + of_int k * dt ?s1, fishing_oil ?s1)]"]
  show ?case using c len by (auto simp: calculate_def)
qed


lemma oil_values_assign_values:
  "length vs = length cs \<Longrightarrow> map (\<lambda>c. oil_value (attrs c)) (assign_values cs vs) = vs"
  by (induction cs vs rule: assign_values.induct) (auto simp: oil_value_set_oil_value)

lemma Solver_init_square: "Solver_init square_config square_points square_blocks = Inr square_solver"
proof -
  from square_mesh_built obtain cs where "Mesh_init square_points square_blocks = Inr cs"
    and "find_neighbors cs = square_mesh"
    by (cases "Mesh_init square_points square_blocks") auto
  then show ?thesis
    by (simp add: Solver_init_def square_config_def square_solver_def square_solver_dt)
qed

text \<open>
  The number of steps of a restart is the integer part of a rounded quotient of rounded
  numbers. For 105 steps from time 0 to time 1 the step is the double nearest to 1/105,
  which is more than 1/105, and the restart computes 104 steps.
\<close>

lemma restart_steps_105:
  "float_div (float_sub 1 0) (float_round 105) = 1372525600722437 / 144115188075855872
   \<and> py_trunc (float_div (float_sub 1 0) (float_div (float_sub 1 0) (float_round 105))) = 104"
  by (simp add: float_sub_def float_div_def float_round_def scale_mantissa.simps
      round_half_even_def py_trunc_def)

text \<open>
  C7, the code at a failing input. The solver of the small mesh runs its two steps from
  time 0 to time 1 and saves its state at time 1, when no step remains. A solver
  constructed from the same configuration and mesh with the saved folder as its restart
  has the saved value in every cell, but it starts at time 0 with 2 steps: the saved
  files hold neither the time reached nor the steps that remain, since saving never
  writes the keys \<^verbatim>\<open>current_time\<close> and \<^verbatim>\<open>remaining_steps\<close> that loading reads.
\<close>

theorem restart_after_run:
  "\<exists>fishing_oil_data s_end f s'.
      Solver_init square_config square_points square_blocks = Inr square_solver
      \<and> run_simulation square_solver = Inr (fishing_oil_data, s_end, f)
      \<and> map fst fishing_oil_data = [0, 1 / 2, 1]
      \<and> Solver_init (square_config\<lparr>cfg_restartFile := Some f\<rparr>) square_points square_blocks = Inr s'
      \<and> map (\<lambda>c. oil_value (attrs c)) (mesh s') = map (\<lambda>c. oil_value (attrs c)) (mesh s_end)
      \<and> tStart s' = 0 \<and> nt s' = 2"
proof -
  have ok: "mesh_ok (mesh square_solver)"
    using mesh_ok_square_mesh by (simp add: square_solver_def)
  from time_loop_ok [OF ok, of "[1..nt square_solver]" "[(tStart square_solver, fishing_oil square_solver)]"]
  obtain s_end data where loop: "time_loop square_solver [1..nt square_solver]
        [(tStart square_solver, fishing_oil square_solver)] = Inr (s_end, data)"
    and len: "length (mesh s_end) = length (mesh square_solver)"
    and name: "meshName s_end = meshName square_solver"
    and times: "map fst data = map fst [(tStart square_solver, fishing_oil square_solver)]
        @ map (\<lambda>k. tStart square_solver + of_int k * dt square_solver) [1..nt square_solver]"
    by blast
  have upto: "[1..nt square_solver] = [1, 2]"
    by (simp add: square_solver_def upto_rec1)
  have t: "map fst data = [0, 1 / 2, 1]"
    using times unfolding upto by (simp add: square_solver_def)
  have ne: "mesh s_end \<noteq> []" using len by (auto simp: square_solver_def square_mesh_def)
  then have "\<exists>ls. simulation_data_lines s_end = Inr ls"
    by (cases "mesh s_end") (simp_all add: simulation_data_lines_def)
  then obtain f where sv: "save_state s_end = (f, None)"
    by (auto simp: save_state_def)
  then have f: "f = fst (save_state s_end)" by simp
  have run: "run_simulation square_solver = Inr (data, s_end, f)"
    using loop sv by (simp add: run_simulation_def)
  have colon: "CHR '':'' \<notin> set (meshName s_end)"
    using name by (simp add: square_solver_def)
  have dt0: "dt square_solver \<noteq> 0" by (simp add: square_solver_def)
  let ?s' = "square_solver\<lparr>mesh := assign_values (mesh square_solver)
                 (map (\<lambda>c. oil_value (attrs c)) (mesh s_end)),
               nt := py_trunc (float_div (float_sub (tEnd square_solver) (tStart square_solver))
                             (dt square_solver))\<rparr>"
  from square_mesh_built obtain cs where m: "Mesh_init square_points square_blocks = Inr cs"
    "find_neighbors cs = square_mesh"
    by (cases "Mesh_init square_points square_blocks") auto
  have "Solver_init (square_config\<lparr>cfg_restartFile := Some f\<rparr>)
          square_points square_blocks
        = (case load_state square_solver f of
             (s', Some e) \<Rightarrow> Inl e | (s', None) \<Rightarrow> Inr s')"
    using m by (simp add: Solver_init_def square_config_def square_solver_def square_solver_dt)
  then have init: "Solver_init (square_config\<lparr>cfg_restartFile := Some f\<rparr>)
          square_points square_blocks = Inr ?s'"
    unfolding f by (simp add: load_saved_state [OF ne colon dt0])
  have vals: "map (\<lambda>c. oil_value (attrs c)) (mesh ?s') = map (\<lambda>c. oil_value (attrs c)) (mesh s_end)"
    using len by (simp add: oil_values_assign_values)
  have ts: "tStart ?s' = 0" and ns: "nt ?s' = 2"
    using square_solver_steps by (simp_all add: square_solver_def)
  show ?thesis
    by (intro exI conjI) (rule Solver_init_square run t init vals ts ns)+
qed

subsection \<open>Conservation\<close>

lemma upwind_antisym: "upwind b a (map uminus n) v = - upwind a b n v"
proof -
  have "map2 (*) (map uminus n) v = map uminus (map2 (*) n v)"
    by (induction n arbitrary: v) (auto split: list.splits simp: zip_Cons1)
  then have "sum_list (map2 (*) (map uminus n) v) = - sum_list (map2 (*) n v)"
    by (simp add: uminus_sum_list_map comp_def)
  then show ?thesis by (simp add: upwind_def Let_def)
qed

lemma mean_velocity_commute: "mean_velocity v w = mean_velocity w v"
  by (simp add: mean_velocity_def add.commute)

lemma distinct_filter_nth_eq:
  "distinct (filter P xs) \<Longrightarrow> i < length xs \<Longrightarrow> j < length xs \<Longrightarrow> xs ! i = xs ! j
   \<Longrightarrow> P (xs ! i) \<Longrightarrow> i = j"
proof (induction xs arbitrary: i j)
  case Nil
  then show ?case by simp
next
  case (Cons x xs)
  show ?case
  proof (cases i; cases j)
    fix i' j' assume "i = Suc i'" "j = Suc j'"
    with Cons show ?thesis by (auto split: if_splits)
  next
    fix j' assume "i = 0" "j = Suc j'"
    with Cons.prems show ?thesis by (auto split: if_splits)
  next
    fix i' assume "i = Suc i'" "j = 0"
    with Cons.prems show ?thesis by (auto split: if_splits)
  qed simp
qed

lemma interior_edges_iff:
  "e \<in> set (interior_edges cells i) \<longleftrightarrow>
     e < length (neighbors (attrs (cells ! i))) \<and> 0 \<le> neighbors (attrs (cells ! i)) ! e"
  by (auto simp: interior_edges_def)

lemma distinct_interior_edges: "distinct (interior_edges cells i)"
  by (simp add: interior_edges_def)

lemma interior_edges_Line:
  assumes "mesh_ok cells" and "i < length cells" and "cells ! i = Line a"
  shows "interior_edges cells i = []"
  using mesh_ok_nth [OF assms(1,2)] assms(3)
  by (auto simp: interior_edges_def list_all_length filter_empty_conv)

lemma map_uminus_uminus: "map uminus (map uminus (n :: real list)) = n"
  by (induction n) auto

text \<open>What a matched edge gives.\<close>

lemma matched_edge:
  assumes ok: "mesh_ok cells" and i: "i < length cells"
    and e: "e \<in> set (interior_edges cells i)" and m: "edge_matched cells i e"
  defines "j \<equiv> nat (neighbors (attrs (cells ! i)) ! e)"
  shows "j < length cells"
    and "neighbors (attrs (cells ! i)) ! e = int j"
    and "\<exists>e'. e' \<in> set (interior_edges cells j) \<and> neighbors (attrs (cells ! j)) ! e' = int i
            \<and> normals (cells ! j) ! e' = map uminus (normals (cells ! i) ! e)
            \<and> edge_matched cells j e'"
    and "\<And>e2. e2 \<in> set (interior_edges cells i) \<Longrightarrow>
            neighbors (attrs (cells ! i)) ! e2 = int j \<Longrightarrow> e2 = e"
proof -
  from e have el: "e < length (neighbors (attrs (cells ! i)))"
    and nn: "0 \<le> neighbors (attrs (cells ! i)) ! e"
    by (simp_all add: interior_edges_iff)
  from nn show nj: "neighbors (attrs (cells ! i)) ! e = int j" by (simp add: j_def)
  from m obtain a ar ns where tri: "cells ! i = Triangle a ar ns"
    by (cases "cells ! i") (auto simp: edge_matched_def)
  from m tri obtain b br ms where trj: "cells ! j = Triangle b br ms"
    by (cases "cells ! j") (auto simp: edge_matched_def j_def)
  from m tri trj have da: "distinct (filter (\<lambda>ngh. 0 \<le> ngh) (neighbors a))"
    and db: "distinct (filter (\<lambda>ngh. 0 \<le> ngh) (neighbors b))"
    and ex: "list_ex (\<lambda>e'. neighbors b ! e' = int i \<and> ms ! e' = map uminus (ns ! e))
               [0..<length (neighbors b)]"
    by (simp_all add: edge_matched_def j_def)
  from mesh_ok_nth [OF ok i] tri el have "neighbors a ! e < int (length cells)"
    by (simp add: list_all_length)
  then show jl: "j < length cells" using nn tri by (simp add: j_def)
  from ex obtain e' where e'l: "e' < length (neighbors b)"
    and bk: "neighbors b ! e' = int i" and opp: "ms ! e' = map uminus (ns ! e)"
    by (auto simp: list_ex_iff)
  have "edge_matched cells j e'"
    using tri trj da db el nj bk opp
    by (auto simp: edge_matched_def list_ex_iff map_uminus_uminus intro!: bexI [of _ e])
  then show "\<exists>e'. e' \<in> set (interior_edges cells j) \<and> neighbors (attrs (cells ! j)) ! e' = int i
            \<and> normals (cells ! j) ! e' = map uminus (normals (cells ! i) ! e)
            \<and> edge_matched cells j e'"
    using tri trj e'l bk opp by (auto simp: interior_edges_iff intro!: exI [of _ e'])
  fix e2 assume e2: "e2 \<in> set (interior_edges cells i)"
    and n2: "neighbors (attrs (cells ! i)) ! e2 = int j"
  from distinct_filter_nth_eq [OF da, of e2 e] e2 n2 nj el tri
  show "e2 = e" by (simp add: interior_edges_iff)
qed


lemma matched_flux_sum_zero:
  assumes ok: "mesh_ok cells"
  shows "(\<Sum>i\<leftarrow>[0..<length cells].
            \<Sum>e\<leftarrow>filter (edge_matched cells i) (interior_edges cells i). edge_flux cells i e) = 0"
proof -
  define E where
    "E = (SIGMA i:{0..<length cells}. set (filter (edge_matched cells i) (interior_edges cells i)))"
  define twin where
    "twin = (\<lambda>(i, e). (nat (neighbors (attrs (cells ! i)) ! e),
        THE e'. e' \<in> set (interior_edges cells (nat (neighbors (attrs (cells ! i)) ! e)))
              \<and> neighbors (attrs (cells ! nat (neighbors (attrs (cells ! i)) ! e))) ! e' = int i))"
  define F where "F = (\<lambda>(i, e). edge_flux cells i e)"
  have twin_props: "twin x \<in> E \<and> twin (twin x) = x \<and> F (twin x) = - F x" if x: "x \<in> E" for x
  proof -
    obtain i e where xe: "x = (i, e)" by (cases x)
    from x xe have i: "i < length cells" and e: "e \<in> set (interior_edges cells i)"
      and m: "edge_matched cells i e"
      by (simp_all add: E_def)
    let ?j = "nat (neighbors (attrs (cells ! i)) ! e)"
    note be = matched_edge [OF ok i e m]
    from be(3) obtain e' where e'_in: "e' \<in> set (interior_edges cells ?j)"
      and bk: "neighbors (attrs (cells ! ?j)) ! e' = int i"
      and opp: "normals (cells ! ?j) ! e' = map uminus (normals (cells ! i) ! e)"
      and m': "edge_matched cells ?j e'"
      by blast
    have nat_bk: "nat (neighbors (attrs (cells ! ?j)) ! e') = i" using bk by simp
    note be' = matched_edge [OF ok be(1) e'_in m']
    have uniq: "e2 = e'"
      if "e2 \<in> set (interior_edges cells ?j)" "neighbors (attrs (cells ! ?j)) ! e2 = int i" for e2
      using be'(4) [of e2] that nat_bk by simp
    have the1: "(THE e2. e2 \<in> set (interior_edges cells ?j)
                  \<and> neighbors (attrs (cells ! ?j)) ! e2 = int i) = e'"
      using e'_in bk uniq by (intro the_equality) blast+
    have tw: "twin (i, e) = (?j, e')"
      unfolding twin_def prod.case the1 ..
    have uniq2: "e2 = e"
      if "e2 \<in> set (interior_edges cells i)" "neighbors (attrs (cells ! i)) ! e2 = int ?j" for e2
      using be(4) [of e2] that by simp
    have the2: "(THE e2. e2 \<in> set (interior_edges cells i)
                  \<and> neighbors (attrs (cells ! i)) ! e2 = int ?j) = e"
      using e be(2) uniq2 by (intro the_equality) blast+
    have tw2: "twin (?j, e') = (i, e)"
      unfolding twin_def prod.case nat_bk the2 ..
    have inE: "(?j, e') \<in> E" using be(1) e'_in m' by (simp add: E_def)
    have "edge_flux cells ?j e'
        = upwind (oil_value (attrs (cells ! ?j))) (oil_value (attrs (cells ! i)))
            (map uminus (normals (cells ! i) ! e))
            (mean_velocity (velocity (attrs (cells ! ?j))) (velocity (attrs (cells ! i))))"
      unfolding edge_flux_def Let_def nat_bk opp ..
    also have "\<dots> = - upwind (oil_value (attrs (cells ! i))) (oil_value (attrs (cells ! ?j)))
            (normals (cells ! i) ! e)
            (mean_velocity (velocity (attrs (cells ! i))) (velocity (attrs (cells ! ?j))))"
      unfolding mean_velocity_commute [of "velocity (attrs (cells ! ?j))"]
      by (rule upwind_antisym)
    also have "\<dots> = - edge_flux cells i e"
      unfolding edge_flux_def Let_def ..
    finally have "F (?j, e') = - F (i, e)" by (simp add: F_def)
    with tw tw2 inE show ?thesis unfolding xe by simp
  qed
  have "sum (\<lambda>x. - F x) E = sum F E"
  proof (rule sum.reindex_bij_witness [of _ twin twin])
    fix a assume "a \<in> E"
    then show "twin (twin a) = a" "twin a \<in> E" "F (twin a) = - F a"
      using twin_props by blast+
  next
    fix a assume "a \<in> E"
    then show "twin (twin a) = a" "twin a \<in> E"
      using twin_props by blast+
  qed
  then have "sum F E = 0" by (simp add: sum_negf)
  moreover have "(\<Sum>i\<leftarrow>[0..<length cells].
            \<Sum>e\<leftarrow>filter (edge_matched cells i) (interior_edges cells i). edge_flux cells i e)
      = sum F E"
  proof -
    have "(\<Sum>i\<leftarrow>[0..<length cells].
            \<Sum>e\<leftarrow>filter (edge_matched cells i) (interior_edges cells i). edge_flux cells i e)
        = (\<Sum>i\<in>{0..<length cells}.
            \<Sum>e\<in>set (filter (edge_matched cells i) (interior_edges cells i)). edge_flux cells i e)"
      by (simp add: sum_list_distinct_conv_sum_set distinct_interior_edges)
    also have "\<dots> = sum F E"
      unfolding E_def F_def by (rule sum.Sigma) simp_all
    finally show ?thesis .
  qed
  ultimately show ?thesis by simp
qed

lemma sum_list_filter_split:
  "sum_list (map f xs) = sum_list (map f (filter P xs)) + sum_list (map f (filter (\<lambda>x. \<not> P x) xs))"
  for f :: "'a \<Rightarrow> real"
  by (induction xs) auto

lemma net_flux_unmatched:
  assumes ok: "mesh_ok cells"
  shows "(\<Sum>i\<leftarrow>[0..<length cells]. \<Sum>e\<leftarrow>interior_edges cells i. edge_flux cells i e)
         = unmatched_flux cells"
proof -
  have "(\<Sum>i\<leftarrow>[0..<length cells]. \<Sum>e\<leftarrow>interior_edges cells i. edge_flux cells i e)
      = (\<Sum>i\<leftarrow>[0..<length cells].
           (\<Sum>e\<leftarrow>filter (edge_matched cells i) (interior_edges cells i). edge_flux cells i e)
           + (\<Sum>e\<leftarrow>filter (\<lambda>e. \<not> edge_matched cells i e) (interior_edges cells i).
                edge_flux cells i e))"
    by (rule arg_cong [where f = sum_list], rule map_cong, rule refl)
       (rule sum_list_filter_split)
  also have "\<dots> = (\<Sum>i\<leftarrow>[0..<length cells].
           \<Sum>e\<leftarrow>filter (edge_matched cells i) (interior_edges cells i). edge_flux cells i e)
         + unmatched_flux cells"
    by (simp add: sum_list_addf unmatched_flux_def)
  finally show ?thesis by (simp add: matched_flux_sum_zero [OF ok])
qed

lemma all_matched_unmatched_flux: "all_matched cells \<Longrightarrow> unmatched_flux cells = 0"
proof -
  assume a: "all_matched cells"
  have "map (\<lambda>i. \<Sum>e\<leftarrow>filter (\<lambda>e. \<not> edge_matched cells i e) (interior_edges cells i).
          edge_flux cells i e) [0..<length cells]
      = map (\<lambda>i. 0 :: real) [0..<length cells]"
  proof (rule map_cong [OF refl])
    fix i assume "i \<in> set [0..<length cells]"
    with a have "list_all (edge_matched cells i) (interior_edges cells i)"
      by (simp add: all_matched_def list_all_iff)
    then have "filter (\<lambda>e. \<not> edge_matched cells i e) (interior_edges cells i) = []"
      by (simp add: list_all_iff filter_empty_conv)
    then show "(\<Sum>e\<leftarrow>filter (\<lambda>e. \<not> edge_matched cells i e) (interior_edges cells i).
          edge_flux cells i e) = 0"
      by simp
  qed
  then have "unmatched_flux cells = sum_list (map (\<lambda>i. 0 :: real) [0..<length cells])"
    unfolding unmatched_flux_def by (rule arg_cong)
  then show ?thesis by simp
qed


lemma mass_step:
  assumes ok: "mesh_ok cells" and nz: "list_all nonzero_area cells" and i: "i < length cells"
  shows "mass (set_oil_value (cells ! i) (jacobi_value tstep cells i))
         = mass (cells ! i) - tstep * (\<Sum>e\<leftarrow>interior_edges cells i. edge_flux cells i e)"
proof (cases "cells ! i")
  case (Triangle a ar ns)
  from nz i have "nonzero_area (cells ! i)" by (simp add: list_all_length)
  with Triangle have ar: "ar \<noteq> 0" by simp
  have "ar * (\<Sum>e\<leftarrow>interior_edges cells i. edge_term tstep cells i e)
      = ar * (\<Sum>e\<leftarrow>interior_edges cells i. tstep / ar * edge_flux cells i e)"
    using Triangle by (simp add: edge_term_def)
  also have "\<dots> = ar * (tstep / ar * (\<Sum>e\<leftarrow>interior_edges cells i. edge_flux cells i e))"
    by (simp only: sum_list_const_mult)
  also have "\<dots> = tstep * (\<Sum>e\<leftarrow>interior_edges cells i. edge_flux cells i e)"
    using ar by simp
  finally show ?thesis
    using Triangle by (simp add: jacobi_value_def right_diff_distrib)
next
  case (Line a)
  from interior_edges_Line [OF ok i Line] Line show ?thesis by simp
qed

lemma oil_step:
  assumes ok: "mesh_ok cells" and ha: "list_all (has_area A) cells" and i: "i < length cells"
  shows "jacobi_value tstep cells i
         = oil_value (attrs (cells ! i))
             - tstep / A * (\<Sum>e\<leftarrow>interior_edges cells i. edge_flux cells i e)"
proof (cases "cells ! i")
  case (Triangle a ar ns)
  from ha i have "has_area A (cells ! i)" by (simp add: list_all_length)
  with Triangle have ar: "ar = A" by simp
  have "(\<Sum>e\<leftarrow>interior_edges cells i. edge_term tstep cells i e)
      = (\<Sum>e\<leftarrow>interior_edges cells i. tstep / A * edge_flux cells i e)"
    using Triangle ar by (simp add: edge_term_def)
  also have "\<dots> = tstep / A * (\<Sum>e\<leftarrow>interior_edges cells i. edge_flux cells i e)"
    by (simp only: sum_list_const_mult)
  finally show ?thesis by (simp add: jacobi_value_def)
next
  case (Line a)
  from interior_edges_Line [OF ok i Line] show ?thesis by (simp add: jacobi_value_def)
qed

lemma sum_list_upt_nth: "(\<Sum>i\<leftarrow>[0..<length xs]. f (xs ! i)) = sum_list (map f xs)"
proof -
  have "map (\<lambda>i. f (xs ! i)) [0..<length xs] = map f xs"
    by (rule nth_equalityI) simp_all
  then show ?thesis by simp
qed

lemma tetra_mesh_built:
  "map_sum id (\<lambda>cs. assign_values (find_neighbors cs) [1, 0, 0, 0])
     (Mesh_init tetra_points tetra_blocks) = Inr tetra_mesh"
proof -
  have "\<exists>cs. Mesh_init tetra_points tetra_blocks = Inr cs
          \<and> assign_values (find_neighbors cs) [1, 0, 0, 0] = tetra_mesh"
    by (simp add: Mesh_init_def tetra_points_def tetra_blocks_def factory_def
        Triangle_init_def Line_init_def Cell_init_def mean_axis0_def Let_def
        edge_normal_planar find_neighbors_def shared_edge_def enumerate_eq_zip
        tetra_mesh_def)
  then show ?thesis by auto
qed

lemma kite_mesh_built:
  "map_sum id (\<lambda>cs. assign_values (find_neighbors cs) [0, 1])
     (Mesh_init kite_points kite_blocks) = Inr kite_mesh"
proof -
  have "\<exists>cs. Mesh_init kite_points kite_blocks = Inr cs
          \<and> assign_values (find_neighbors cs) [0, 1] = kite_mesh"
    by (simp add: Mesh_init_def kite_points_def kite_blocks_def factory_def
        Triangle_init_def Line_init_def Cell_init_def mean_axis0_def Let_def
        edge_normal_planar find_neighbors_def shared_edge_def enumerate_eq_zip
        kite_mesh_def)
  then show ?thesis by auto
qed

lemma mesh_ok_tetra_mesh: "mesh_ok tetra_mesh \<and> list_all nonzero_area tetra_mesh"
  by (simp add: mesh_ok_def tetra_mesh_def)

lemma mesh_ok_kite_mesh: "mesh_ok kite_mesh \<and> list_all nonzero_area kite_mesh"
  by (simp add: mesh_ok_def kite_mesh_def)

lemma all_matched_kite_mesh: "all_matched kite_mesh"
  by (simp add: all_matched_def kite_mesh_def interior_edges_def edge_matched_def)

lemma all_matched_square_mesh:
  "all_matched square_mesh \<and> list_all (has_area (1 / 2)) square_mesh
   \<and> list_all nonzero_area square_mesh"
  by (simp add: all_matched_def square_mesh_def interior_edges_def edge_matched_def)

lemma unmatched_flux_tetra_mesh: "unmatched_flux tetra_mesh = - (3 / 10)"
  by (simp add: unmatched_flux_def tetra_mesh_def interior_edges_def edge_matched_def
      edge_flux_def upwind_def mean_velocity_def Let_def)

text \<open>
  C6, as amended. On every mesh with the shape that the constructors establish and
  triangles of area other than zero, with or without boundary edges, one time step
  returns and changes the total quantity of oil, the sum over the cells of area times
  value, by exactly minus the step times the sum of the fluxes across the edges that
  have a neighbour and are not matched: the fluxes across two matched edges cancel.
  So the total quantity is conserved when every edge with a neighbour is matched, and
  then the sum of the values is conserved too if all triangles have one area. Edges
  without a neighbour contribute nothing.
\<close>

theorem calculate_mass_balance:
  assumes "mesh_ok cells" and "list_all nonzero_area cells"
  shows "\<exists>cells'. calculate_cells tstep cells = Inr cells'
           \<and> total_mass cells' = total_mass cells - tstep * unmatched_flux cells
           \<and> (all_matched cells \<longrightarrow> total_mass cells' = total_mass cells)
           \<and> (all_matched cells \<and> list_all (has_area A) cells \<longrightarrow>
                total_oil cells' = total_oil cells)"
proof -
  let ?cells' = "map (\<lambda>i. set_oil_value (cells ! i) (jacobi_value tstep cells i)) [0..<length cells]"
  let ?net = "\<Sum>i\<leftarrow>[0..<length cells]. \<Sum>e\<leftarrow>interior_edges cells i. edge_flux cells i e"
  have c: "calculate_cells tstep cells = Inr ?cells'"
    by (rule calculate_cells_result [OF assms(1)])
  have "total_mass ?cells'
      = (\<Sum>i\<leftarrow>[0..<length cells]. mass (set_oil_value (cells ! i) (jacobi_value tstep cells i)))"
    by (simp add: total_mass_def comp_def)
  also have "\<dots> = (\<Sum>i\<leftarrow>[0..<length cells].
        mass (cells ! i) - tstep * (\<Sum>e\<leftarrow>interior_edges cells i. edge_flux cells i e))"
    by (rule arg_cong [where f = sum_list], rule map_cong)
       (simp_all add: mass_step [OF assms])
  also have "\<dots> = (\<Sum>i\<leftarrow>[0..<length cells]. mass (cells ! i)) - tstep * ?net"
    by (simp add: sum_list_subtractf sum_list_const_mult)
  also have "\<dots> = total_mass cells - tstep * unmatched_flux cells"
    by (simp add: net_flux_unmatched [OF assms(1)] sum_list_upt_nth total_mass_def)
  finally have m: "total_mass ?cells' = total_mass cells - tstep * unmatched_flux cells" .
  have m0: "total_mass ?cells' = total_mass cells" if "all_matched cells"
    using m all_matched_unmatched_flux [OF that] by simp
  have o: "total_oil ?cells' = total_oil cells"
    if a: "all_matched cells" and ha: "list_all (has_area A) cells"
  proof -
    have "total_oil ?cells' = (\<Sum>i\<leftarrow>[0..<length cells]. jacobi_value tstep cells i)"
      by (simp add: total_oil_def comp_def oil_value_set_oil_value)
    also have "\<dots> = (\<Sum>i\<leftarrow>[0..<length cells]. oil_value (attrs (cells ! i))
          - tstep / A * (\<Sum>e\<leftarrow>interior_edges cells i. edge_flux cells i e))"
      by (rule arg_cong [where f = sum_list], rule map_cong)
         (simp_all add: oil_step [OF assms(1) ha])
    also have "\<dots> = (\<Sum>i\<leftarrow>[0..<length cells]. oil_value (attrs (cells ! i))) - tstep / A * ?net"
      by (simp only: sum_list_subtractf sum_list_const_mult)
    also have "\<dots> = total_oil cells"
      using sum_list_upt_nth [of "\<lambda>c. oil_value (attrs c)" cells]
      by (simp add: net_flux_unmatched [OF assms(1)] all_matched_unmatched_flux [OF a]
          total_oil_def)
    finally show ?thesis .
  qed
  from c m m0 o show ?thesis by (intro exI [of _ ?cells'] conjI impI) auto
qed

theorem calculate_mass_balance_witness:
  "mesh_ok tetra_mesh \<and> list_all nonzero_area tetra_mesh
   \<and> total_mass tetra_mesh = 9 / 2 \<and> unmatched_flux tetra_mesh = - (3 / 10)
   \<and> (\<exists>cells'. calculate_cells (1 / 10) tetra_mesh = Inr cells' \<and> total_mass cells' = 453 / 100)
   \<and> mesh_ok kite_mesh \<and> list_all nonzero_area kite_mesh \<and> all_matched kite_mesh
   \<and> (\<exists>cells'. calculate_cells (1 / 10) kite_mesh = Inr cells'
         \<and> total_mass cells' = total_mass kite_mesh)
   \<and> mesh_ok square_mesh \<and> all_matched square_mesh \<and> list_all (has_area (1 / 2)) square_mesh
   \<and> (\<exists>cells'. calculate_cells (1 / 10) square_mesh = Inr cells'
         \<and> total_oil cells' = total_oil square_mesh)"
proof -
  have tm: "total_mass tetra_mesh = 9 / 2" by (simp add: total_mass_def tetra_mesh_def)
  have 1: "\<exists>cells'. calculate_cells (1 / 10) tetra_mesh = Inr cells' \<and> total_mass cells' = 453 / 100"
    using calculate_mass_balance [of tetra_mesh "1 / 10" 0] mesh_ok_tetra_mesh
    by (auto simp: tm unmatched_flux_tetra_mesh)
  have 2: "\<exists>cells'. calculate_cells (1 / 10) kite_mesh = Inr cells'
         \<and> total_mass cells' = total_mass kite_mesh"
    using calculate_mass_balance [of kite_mesh "1 / 10" 0] mesh_ok_kite_mesh all_matched_kite_mesh
    by auto
  have 3: "\<exists>cells'. calculate_cells (1 / 10) square_mesh = Inr cells'
         \<and> total_oil cells' = total_oil square_mesh"
    using calculate_mass_balance [of square_mesh "1 / 10" "1 / 2"] mesh_ok_square_mesh
      all_matched_square_mesh
    by auto
  from 1 2 3 tm unmatched_flux_tetra_mesh mesh_ok_tetra_mesh mesh_ok_kite_mesh
    all_matched_kite_mesh mesh_ok_square_mesh all_matched_square_mesh
  show ?thesis by (intro conjI) simp_all
qed

text \<open>
  C6 as stated fails. In the mesh of the flat tetrahedron every cell is a Triangle and
  every edge has a neighbour; with the values 1, 0, 0, 0 and a step of 1/10 the sum of
  the values goes from 1 to 529/450, and the sum of area times value from 9/2 to
  453/100: its outer edges are not matched. In the mesh of the two triangles of areas
  1/2 and 1 every edge with a neighbour is matched, and the sum of the values still
  goes from 1 to 83/75: what is conserved there is the sum of area times value.
\<close>

theorem total_oil_counterexample:
  "map_sum id (\<lambda>cs. assign_values (find_neighbors cs) [1, 0, 0, 0])
     (Mesh_init tetra_points tetra_blocks) = Inr tetra_mesh
   \<and> list_all is_Triangle tetra_mesh
   \<and> list_all (\<lambda>c. list_all (\<lambda>ngh. 0 \<le> ngh) (neighbors (attrs c))) tetra_mesh
   \<and> total_oil tetra_mesh = 1
   \<and> map_sum id total_oil (calculate_cells (1 / 10) tetra_mesh) = Inr (529 / 450)
   \<and> total_mass tetra_mesh = 9 / 2
   \<and> map_sum id total_mass (calculate_cells (1 / 10) tetra_mesh) = Inr (453 / 100)
   \<and> map_sum id (\<lambda>cs. assign_values (find_neighbors cs) [0, 1])
        (Mesh_init kite_points kite_blocks) = Inr kite_mesh
   \<and> all_matched kite_mesh
   \<and> total_oil kite_mesh = 1
   \<and> map_sum id total_oil (calculate_cells (1 / 10) kite_mesh) = Inr (83 / 75)"
proof -
  have t: "calculate_cells (1 / 10) tetra_mesh
      = Inr (map2 set_oil_value tetra_mesh [83 / 90, 0, 7 / 150, 31 / 150])"
    by (simp add: calculate_cells_def tetra_mesh_def enumerate_eq_zip flux_function_def dot_def
        avg_velocity_def Let_def)
  have k: "calculate_cells (1 / 10) kite_mesh
      = Inr (map2 set_oil_value kite_mesh [16 / 75, 67 / 75])"
    by (simp add: calculate_cells_def kite_mesh_def enumerate_eq_zip flux_function_def dot_def
        avg_velocity_def Let_def)
  have "map_sum id total_oil (calculate_cells (1 / 10) tetra_mesh) = Inr (529 / 450)"
    "map_sum id total_mass (calculate_cells (1 / 10) tetra_mesh) = Inr (453 / 100)"
    unfolding t by (simp_all add: total_oil_def total_mass_def tetra_mesh_def)
  moreover have "map_sum id total_oil (calculate_cells (1 / 10) kite_mesh) = Inr (83 / 75)"
    unfolding k by (simp add: total_oil_def kite_mesh_def)
  moreover have "list_all is_Triangle tetra_mesh"
    "list_all (\<lambda>c. list_all (\<lambda>ngh. 0 \<le> ngh) (neighbors (attrs c))) tetra_mesh"
    "total_oil tetra_mesh = 1" "total_mass tetra_mesh = 9 / 2" "total_oil kite_mesh = 1"
    by (simp_all add: tetra_mesh_def kite_mesh_def total_oil_def total_mass_def)
  ultimately show ?thesis
    using tetra_mesh_built kite_mesh_built all_matched_kite_mesh by simp
qed

end
